theory Spec2Isabelle
  imports Main "HOL-Library.Char_ord" "HOL-Library.List_Lexorder" "HOL-Library.Sublist"
    "HOL-Library.AList"
begin

section \<open>Python values and the canonical JSON serialisation\<close>

text \<open>
  A Python \<open>str\<close> is modelled as a \<open>string\<close> whose characters are code points
  below 256. Values that are serialised with \<open>json.dumps\<close> are terms of \<open>json\<close>;
  a Python \<open>dict\<close> that is serialised is the list of its items, with distinct keys.
\<close>

datatype json =
    JNull
  | JBool bool
  | JInt int
  | JStr string
  | JArr "json list"
  | JObj "(string \<times> json) list"

datatype py_error =
    FileNotFoundError
  | JSONDecodeError
  | KeyError string
  | ValueError string
  | OSError string

text \<open>\<open>str(n)\<close> for an integer: decimal digits, with a minus sign when negative.\<close>

definition digit_char :: "nat \<Rightarrow> char" where
  "digit_char d = ''0123456789abcdef'' ! d"

fun str_nat :: "nat \<Rightarrow> string" where
  "str_nat n = (if n < 10 then [digit_char n] else str_nat (n div 10) @ [digit_char (n mod 10)])"

declare str_nat.simps [simp del]

definition str_int :: "int \<Rightarrow> string" where
  "str_int i = (if i < 0 then CHR ''-'' # str_nat (nat (- i)) else str_nat (nat i))"

text \<open>
  \<open>json.dumps\<close> escapes a string with \<open>ensure_ascii=True\<close>: the quote and the
  backslash get a backslash, the five short escapes are used, and every other character
  outside \<open>' '..'~'\<close> is written \<open>\uXXXX\<close> in lower-case hexadecimal.
\<close>

definition hex4 :: "nat \<Rightarrow> string" where
  "hex4 n = [digit_char (n div 4096 mod 16), digit_char (n div 256 mod 16),
             digit_char (n div 16 mod 16), digit_char (n mod 16)]"

definition escape_char :: "char \<Rightarrow> string" where
  "escape_char c =
     (let n = (of_char c :: nat) in
      if n = 34 then [CHR 0x5C, CHR 0x22]
      else if n = 92 then [CHR 0x5C, CHR 0x5C]
      else if n = 8 then [CHR 0x5C, CHR ''b'']
      else if n = 12 then [CHR 0x5C, CHR ''f'']
      else if n = 10 then [CHR 0x5C, CHR ''n'']
      else if n = 13 then [CHR 0x5C, CHR ''r'']
      else if n = 9 then [CHR 0x5C, CHR ''t'']
      else if 32 \<le> n \<and> n \<le> 126 then [c]
      else [CHR 0x5C, CHR ''u''] @ hex4 n)"

definition encode_str :: "string \<Rightarrow> string" where
  "encode_str s = [CHR 0x22] @ concat (map escape_char s) @ [CHR 0x22]"

fun join :: "string \<Rightarrow> string list \<Rightarrow> string" where
  "join sep [] = []"
| "join sep [x] = x"
| "join sep (x # y # ys) = x @ sep @ join sep (y # ys)"

text \<open>
  \<open>json.dumps(v, sort_keys=True)\<close> with the default separators \<open>', '\<close> and
  \<open>': '\<close>: the items of every object are written in the order of their keys.
\<close>

fun dumps :: "json \<Rightarrow> string" where
  "dumps JNull = ''null''"
| "dumps (JBool b) = (if b then ''true'' else ''false'')"
| "dumps (JInt i) = str_int i"
| "dumps (JStr s) = encode_str s"
| "dumps (JArr vs) = ''['' @ join '', '' (map dumps vs) @ '']''"
| "dumps (JObj kvs) =
     ''{'' @ join '', ''
        (map (\<lambda>kv. encode_str (fst kv) @ '': '' @ snd kv)
           (sort_key fst (map (\<lambda>kv. (fst kv, dumps (snd kv))) kvs))) @ ''}''"

section \<open>The ledger (ledger.py)\<close>

subsection \<open>Blocks\<close>

record erasure_certificate =
  certificate_id :: string
  certificate_hash :: string
  device_serial :: string
  device_model :: string
  device_type :: string
  wipe_method :: string
  wipe_status :: string
  wipe_start :: string
  wipe_end :: string
  simulated :: bool

datatype block_data =
    Genesis string
  | ErasureCertificate erasure_certificate

record block =
  block_index :: int
  timestamp :: string
  transaction_id :: "string option"
  data :: block_data
  previous_hash :: string
  block_hash :: string

record ledger =
  ledger_version :: string
  created_at :: string
  ledger_type :: string
  description :: string
  blocks :: "block list"

text \<open>
  The ledger file: absent, present with content that \<open>json.load\<close> rejects, or present
  with a ledger document. A document that was written is read back unchanged.
\<close>

datatype ledger_file = NoFile | Unreadable | Stored ledger

definition load_ledger :: "ledger_file \<Rightarrow> py_error + ledger" where
  "load_ledger f =
     (case f of NoFile \<Rightarrow> Inl FileNotFoundError
      | Unreadable \<Rightarrow> Inl JSONDecodeError
      | Stored l \<Rightarrow> Inr l)"

subsection \<open>Hashing a block\<close>

definition data_items :: "block_data \<Rightarrow> (string \<times> json) list" where
  "data_items d =
     (case d of
        Genesis m \<Rightarrow> [(''type'', JStr ''genesis''), (''message'', JStr m)]
      | ErasureCertificate c \<Rightarrow>
          [(''type'', JStr ''erasure_certificate''),
           (''certificate_id'', JStr (certificate_id c)),
           (''certificate_hash'', JStr (certificate_hash c)),
           (''device_serial'', JStr (device_serial c)),
           (''device_model'', JStr (device_model c)),
           (''device_type'', JStr (device_type c)),
           (''wipe_method'', JStr (wipe_method c)),
           (''wipe_status'', JStr (wipe_status c)),
           (''wipe_start'', JStr (wipe_start c)),
           (''wipe_end'', JStr (wipe_end c)),
           (''simulated'', JBool (simulated c))])"

text \<open>
  \<open>block_copy\<close> is the dictionary \<open>{k: v for k, v in block_data.items() if k != 'block_hash'}\<close>;
  the key \<open>transaction_id\<close> is there only in blocks that have one.
\<close>

definition block_copy :: "block \<Rightarrow> (string \<times> json) list" where
  "block_copy b =
     [(''block_index'', JInt (block_index b)), (''timestamp'', JStr (timestamp b))] @
     (case transaction_id b of None \<Rightarrow> [] | Some t \<Rightarrow> [(''transaction_id'', JStr t)]) @
     [(''data'', JObj (data_items (data b))), (''previous_hash'', JStr (previous_hash b))]"

text \<open>
  The digest \<open>hashlib.sha256(s.encode()).hexdigest()\<close> is the parameter \<open>H\<close> of every
  function that hashes.
\<close>

definition calculate_block_hash :: "(string \<Rightarrow> string) \<Rightarrow> block \<Rightarrow> string" where
  "calculate_block_hash H b = H (dumps (JObj (block_copy b)))"

definition zero_hash :: string where
  "zero_hash = replicate 64 CHR ''0''"

subsection \<open>Initialisation\<close>

definition create_genesis_block :: "(string \<Rightarrow> string) \<Rightarrow> string \<Rightarrow> block" where
  "create_genesis_block H now =
     (let genesis_data =
        \<lparr>block_index = 0, timestamp = now, transaction_id = None,
         data = Genesis ''ERASH Ledger Genesis Block'',
         previous_hash = zero_hash, block_hash = []\<rparr>
      in genesis_data\<lparr>block_hash := calculate_block_hash H genesis_data\<rparr>)"

text \<open>
  \<open>now_created\<close> and \<open>now_genesis\<close> are the two readings of the clock, in the order
  the code takes them.
\<close>

definition initialize_local_ledger ::
  "(string \<Rightarrow> string) \<Rightarrow> string \<Rightarrow> string \<Rightarrow> ledger_file \<Rightarrow> ledger_file" where
  "initialize_local_ledger H now_created now_genesis f =
     (case f of
        NoFile \<Rightarrow>
          Stored \<lparr>ledger_version = ''1.0'', created_at = now_created,
                  ledger_type = ''local_immutable'',
                  description = ''Immutable ledger for disk erasure certificates'',
                  blocks = [] @ [create_genesis_block H now_genesis]\<rparr>
      | _ \<Rightarrow> f)"

subsection \<open>Recording an erasure\<close>

text \<open>
  The three dictionaries that \<open>record_erasure\<close> reads with \<open>.get(key, default)\<close>:
  a field is \<open>None\<close> when the key is absent. \<open>dev_other\<close> and \<open>rpt_other\<close> hold the
  items under the remaining keys.
\<close>

record certificate_data =
  cd_certificate_id :: "string option"
  cd_certificate_hash :: "string option"

record device_info =
  serial :: "string option"
  model :: "string option"
  dev_type :: "string option"
  dev_other :: "(string \<times> json) list"

record wipe_report =
  rpt_wipe_id :: "string option"
  rpt_method :: "string option"
  rpt_status :: "string option"
  rpt_start_time :: "string option"
  rpt_end_time :: "string option"
  rpt_simulated :: "bool option"
  rpt_other :: "(string \<times> json) list"

definition get_default :: "'a option \<Rightarrow> 'a \<Rightarrow> 'a" where
  "get_default v d = (case v of None \<Rightarrow> d | Some x \<Rightarrow> x)"

text \<open>
  \<open>str.upper\<close> on a digest: the digest has the characters \<open>0-9a-f\<close>, of which the
  letters become capitals.
\<close>

definition upper_char :: "char \<Rightarrow> char" where
  "upper_char c =
     (let n = (of_char c :: nat) in if 97 \<le> n \<and> n \<le> 122 then char_of (n - 32) else c)"

definition upper :: "string \<Rightarrow> string" where
  "upper s = map upper_char s"

definition generate_transaction_id ::
  "(string \<Rightarrow> string) \<Rightarrow> device_info \<Rightarrow> wipe_report \<Rightarrow> string \<Rightarrow> string" where
  "generate_transaction_id H dev rpt now =
     (let data_str = get_default (serial dev) ''UNKNOWN'' @ ''_'' @
                     get_default (rpt_wipe_id rpt) [] @ ''_'' @ now
      in ''TXN-'' @ upper (take 16 (H data_str)))"

record ledger_entry =
  entry_ledger_type :: string
  entry_block_index :: int
  entry_block_hash :: string
  entry_transaction_id :: string
  entry_timestamp :: string
  entry_previous_hash :: string
  entry_certificate_hash :: string

text \<open>
  \<open>now_txn\<close> is the clock as the transaction id reads it, \<open>now_block\<close> as the block's
  timestamp reads it. The result is the file as written back and the returned entry; a
  file that cannot be loaded raises before anything is written.
\<close>

definition record_local_erasure ::
  "(string \<Rightarrow> string) \<Rightarrow> string \<Rightarrow> string \<Rightarrow> ledger_file \<Rightarrow>
   certificate_data \<Rightarrow> wipe_report \<Rightarrow> device_info \<Rightarrow> py_error + (ledger_file \<times> ledger_entry)" where
  "record_local_erasure H now_txn now_block f cert rpt dev =
     (case load_ledger f of
        Inl e \<Rightarrow> Inl e
      | Inr ledger \<Rightarrow>
          (let prev_hash = (if blocks ledger \<noteq> [] then block_hash (last (blocks ledger))
                            else zero_hash);
               idx = int (length (blocks ledger));
               txn = generate_transaction_id H dev rpt now_txn;
               block_data =
                 \<lparr>block_index = idx, timestamp = now_block, transaction_id = Some txn,
                  data = ErasureCertificate
                    \<lparr>certificate_id = get_default (cd_certificate_id cert) ''N/A'',
                     certificate_hash = get_default (cd_certificate_hash cert) ''N/A'',
                     device_serial = get_default (serial dev) ''N/A'',
                     device_model = get_default (model dev) ''Unknown'',
                     device_type = get_default (dev_type dev) ''Unknown'',
                     wipe_method = get_default (rpt_method rpt) ''Unknown'',
                     wipe_status = get_default (rpt_status rpt) ''Unknown'',
                     wipe_start = get_default (rpt_start_time rpt) ''N/A'',
                     wipe_end = get_default (rpt_end_time rpt) ''N/A'',
                     simulated = get_default (rpt_simulated rpt) False\<rparr>,
                  previous_hash = prev_hash, block_hash = []\<rparr>;
               new_block = block_data\<lparr>block_hash := calculate_block_hash H block_data\<rparr>;
               ledger' = ledger\<lparr>blocks := blocks ledger @ [new_block]\<rparr>
           in Inr (Stored ledger',
                   \<lparr>entry_ledger_type = ''local'', entry_block_index = idx,
                    entry_block_hash = block_hash new_block, entry_transaction_id = txn,
                    entry_timestamp = timestamp new_block, entry_previous_hash = prev_hash,
                    entry_certificate_hash = get_default (cd_certificate_hash cert) ''N/A''\<rparr>)))"

subsection \<open>Verifying the chain\<close>

text \<open>The slice \<open>xs[:n]\<close>; a negative \<open>n\<close> counts from the end.\<close>

definition slice_to :: "'a list \<Rightarrow> int \<Rightarrow> 'a list" where
  "slice_to xs n = (if 0 \<le> n then take (nat n) xs else take (nat (int (length xs) + n)) xs)"

text \<open>The loop \<open>for i in range(1, len(blocks))\<close>, from the index \<open>i\<close> on.\<close>

function verify_loop :: "(string \<Rightarrow> string) \<Rightarrow> block list \<Rightarrow> nat \<Rightarrow> bool" where
  "verify_loop H bs i =
     (if i < length bs then
        (let current_block = bs ! i; previous_block = bs ! (i - 1) in
         if previous_hash current_block \<noteq> block_hash previous_block then False
         else if calculate_block_hash H current_block \<noteq> block_hash current_block then False
         else verify_loop H bs (Suc i))
      else True)"
  by pat_completeness auto
termination
  by (relation "measure (\<lambda>(H, bs, i). length bs - i)") auto

declare verify_loop.simps [simp del]

definition verify_chain_integrity :: "(string \<Rightarrow> string) \<Rightarrow> ledger \<Rightarrow> int \<Rightarrow> bool" where
  "verify_chain_integrity H ledger up_to_block_index =
     verify_loop H (slice_to (blocks ledger) (up_to_block_index + 1)) 1"

subsection \<open>Verifying a certificate\<close>

definition truthy :: "string option \<Rightarrow> bool" where
  "truthy s = (case s of None \<Rightarrow> False | Some x \<Rightarrow> x \<noteq> [])"

text \<open>
  The body of the search loop for one block: blocks that are no erasure certificate are
  skipped, and each filter that is given and differs clears the flag.
\<close>

definition block_matches ::
  "string option \<Rightarrow> string option \<Rightarrow> string option \<Rightarrow> block \<Rightarrow> bool" where
  "block_matches cid sn chash b =
     (case data b of
        Genesis m \<Rightarrow> False
      | ErasureCertificate c \<Rightarrow>
          (let match0 = True;
               match1 = (if truthy cid \<and> Some (certificate_id c) \<noteq> cid then False else match0);
               match2 = (if truthy sn \<and> Some (device_serial c) \<noteq> sn then False else match1);
               match3 = (if truthy chash \<and> Some (certificate_hash c) \<noteq> chash then False else match2)
           in match3))"

datatype verdict = VALID | INVALID | NOT_FOUND | ERROR

text \<open>
  The three dictionaries a verification returns: a match with its two checks and the
  block it reports (index, hash, timestamp, transaction id and certificate data are the
  block's), no match, and an exception caught.
\<close>

datatype verification =
    Found bool bool block verdict
  | NotFound
  | VerifyError py_error

fun found :: "verification \<Rightarrow> bool" where
  "found (Found iv cv b s) = True"
| "found NotFound = False"
| "found (VerifyError e) = False"

fun verification_status :: "verification \<Rightarrow> verdict" where
  "verification_status (Found iv cv b s) = s"
| "verification_status NotFound = NOT_FOUND"
| "verification_status (VerifyError e) = ERROR"

text \<open>The file is returned beside the result: a verification writes nothing.\<close>

definition verify_local_certificate ::
  "(string \<Rightarrow> string) \<Rightarrow> ledger_file \<Rightarrow> string option \<Rightarrow> string option \<Rightarrow> string option \<Rightarrow>
   ledger_file \<times> verification" where
  "verify_local_certificate H f cid sn chash =
     (case load_ledger f of
        Inl e \<Rightarrow> (f, VerifyError e)
      | Inr ledger \<Rightarrow>
          (let matching_blocks = filter (block_matches cid sn chash) (blocks ledger) in
           if matching_blocks \<noteq> [] then
             (let b = last matching_blocks;
                  stored_hash = block_hash b;
                  calculated_hash = calculate_block_hash H b;
                  integrity_valid = (stored_hash = calculated_hash);
                  chain_valid = verify_chain_integrity H ledger (block_index b)
              in (f, Found integrity_valid chain_valid b
                       (if integrity_valid \<and> chain_valid then VALID else INVALID)))
           else (f, NotFound)))"

text \<open>
  The endpoint \<open>/api/verify/certificate\<close>: a request with no filter is answered 400
  before the ledger is read.
\<close>

datatype 'a response = BadRequest string | Ok 'a

definition verify_certificate ::
  "(string \<Rightarrow> string) \<Rightarrow> ledger_file \<Rightarrow> string option \<Rightarrow> string option \<Rightarrow> string option \<Rightarrow>
   ledger_file \<times> verification response" where
  "verify_certificate H f cid sn chash =
     (if \<not> (truthy cid \<or> truthy sn \<or> truthy chash) then
        (f, BadRequest ''At least one verification parameter required (certificate_id, serial_number, or certificate_hash)'')
      else (case verify_local_certificate H f cid sn chash of (f', r) \<Rightarrow> (f', Ok r)))"

subsection \<open>Searching by serial number\<close>

record search_record =
  sr_block_index :: int
  sr_timestamp :: string
  sr_certificate_id :: string
  sr_certificate_hash :: string
  sr_wipe_method :: string
  sr_wipe_status :: string

fun search_blocks :: "string \<Rightarrow> block list \<Rightarrow> search_record list" where
  "search_blocks sn [] = []"
| "search_blocks sn (b # bs) =
     (case data b of
        ErasureCertificate c \<Rightarrow>
          (if device_serial c = sn then
             \<lparr>sr_block_index = block_index b, sr_timestamp = timestamp b,
              sr_certificate_id = certificate_id c, sr_certificate_hash = certificate_hash c,
              sr_wipe_method = wipe_method c, sr_wipe_status = wipe_status c\<rparr> # search_blocks sn bs
           else search_blocks sn bs)
      | Genesis m \<Rightarrow> search_blocks sn bs)"

text \<open>
  \<open>service_type\<close> is the service's \<open>ledger_type\<close>. Every exception of the read is
  caught and answered with the empty list.
\<close>

definition search_by_serial ::
  "string \<Rightarrow> ledger_file \<Rightarrow> string \<Rightarrow> ledger_file \<times> search_record list" where
  "search_by_serial service_type f serial_number =
     (if service_type \<noteq> ''local'' then (f, [])
      else (case load_ledger f of
              Inl e \<Rightarrow> (f, [])
            | Inr ledger \<Rightarrow> (f, search_blocks serial_number (blocks ledger))))"

section \<open>The wipe service (wipe\_service.py)\<close>

subsection \<open>String functions of Python\<close>

text \<open>
  \<open>sub in s\<close>, \<open>s.split(sub)[1]\<close> when \<open>sub\<close> occurs in \<open>s\<close> (the text after the
  first occurrence, up to the next one), \<open>s.strip()\<close>, \<open>s.rstrip('%')\<close> and
  \<open>s.replace('/', '_')\<close>.
\<close>

fun contains :: "string \<Rightarrow> string \<Rightarrow> bool" where
  "contains sub [] = (sub = [])"
| "contains sub (c # cs) = (prefix sub (c # cs) \<or> contains sub cs)"

fun after_first :: "string \<Rightarrow> string \<Rightarrow> string" where
  "after_first sub [] = []"
| "after_first sub (c # cs) =
     (if prefix sub (c # cs) then drop (length sub) (c # cs) else after_first sub cs)"

fun before_first :: "string \<Rightarrow> string \<Rightarrow> string" where
  "before_first sub [] = []"
| "before_first sub (c # cs) = (if prefix sub (c # cs) then [] else c # before_first sub cs)"

definition split_second :: "string \<Rightarrow> string \<Rightarrow> string" where
  "split_second sub s = before_first sub (after_first sub s)"

definition is_space :: "char \<Rightarrow> bool" where
  "is_space c = ((of_char c :: nat) \<in> {9, 10, 11, 12, 13, 28, 29, 30, 31, 32, 133, 160})"

definition rstrip_with :: "(char \<Rightarrow> bool) \<Rightarrow> string \<Rightarrow> string" where
  "rstrip_with P s = rev (dropWhile P (rev s))"

definition strip :: "string \<Rightarrow> string" where
  "strip s = rstrip_with is_space (dropWhile is_space s)"

definition rstrip_percent :: "string \<Rightarrow> string" where
  "rstrip_percent s = rstrip_with (\<lambda>c. c = CHR ''%'') s"

definition replace_slash :: "string \<Rightarrow> string" where
  "replace_slash s = map (\<lambda>c. if c = CHR ''/'' then CHR ''_'' else c) s"

definition is_digit :: "char \<Rightarrow> bool" where
  "is_digit c = (48 \<le> (of_char c :: nat) \<and> (of_char c :: nat) \<le> 57)"

fun nat_of_digits :: "nat \<Rightarrow> string \<Rightarrow> nat" where
  "nat_of_digits acc [] = acc"
| "nat_of_digits acc (c # cs) = nat_of_digits (10 * acc + (of_char c - 48)) cs"

text \<open>
  The digits of an integer literal: digits, single underscores between them only.
\<close>

fun digits_ok :: "bool \<Rightarrow> string \<Rightarrow> bool" where
  "digits_ok after_digit [] = after_digit"
| "digits_ok after_digit (c # cs) =
     (if is_digit c then digits_ok True cs
      else if c = CHR ''_'' \<and> after_digit then digits_ok False cs
      else False)"

text \<open>
  \<open>int(s)\<close>: white space around, a sign, then the digits; anything else raises
  \<open>ValueError\<close>, which carries the literal. The bound that newer interpreters put on
  the number of digits is not modelled.
\<close>

definition py_int :: "string \<Rightarrow> py_error + int" where
  "py_int s =
     (let t = strip s;
          neg = (t \<noteq> [] \<and> hd t = CHR ''-'');
          body = (if t \<noteq> [] \<and> (hd t = CHR ''-'' \<or> hd t = CHR ''+'') then tl t else t)
      in if digits_ok False body
         then (let n = int (nat_of_digits 0 (filter is_digit body)) in Inr (if neg then - n else n))
         else Inl (ValueError s))"

text \<open>
  \<open>str(e)\<close> of an exception. The literal of a \<open>ValueError\<close> is quoted as \<open>repr\<close>
  quotes a string without quotes, backslashes and unprintable characters.
\<close>

fun str_error :: "py_error \<Rightarrow> string" where
  "str_error FileNotFoundError = ''[Errno 2] No such file or directory''"
| "str_error JSONDecodeError = ''Expecting value: line 1 column 1 (char 0)''"
| "str_error (KeyError k) = [CHR 0x27] @ k @ [CHR 0x27]"
| "str_error (ValueError s) =
     ''invalid literal for int() with base 10: '' @ [CHR 0x27] @ s @ [CHR 0x27]"
| "str_error (OSError m) = m"

subsection \<open>The registry of jobs\<close>

datatype job_status = Starting | Running | Completed | Failed

record log_entry =
  log_timestamp :: string
  message :: string

record wipe_job =
  device :: string
  status :: job_status
  progress :: int
  job_method :: string
  start_time :: string
  logs :: "log_entry list"
  job_simulated :: bool
  error :: "string option"
  end_time :: "string option"

text \<open>
  \<open>active_wipes\<close>: the dictionary from job ids to jobs, as the list of its items in
  the order of insertion. The keys \<open>error\<close> and \<open>end_time\<close> are absent from a new job.
\<close>

type_synonym registry = "(string \<times> wipe_job) list"

datatype start_result = StartError string | Started string

text \<open>
  \<open>now_epoch\<close> is \<open>int(time.time())\<close> and \<open>now_iso\<close> the start time read from the
  clock. The worker thread that is started afterwards is \<open>run_wipe\<close> below.
\<close>

definition start_wipe ::
  "registry \<Rightarrow> int \<Rightarrow> string \<Rightarrow> string \<Rightarrow> string \<Rightarrow> bool \<Rightarrow> bool \<Rightarrow> registry \<times> start_result" where
  "start_wipe active_wipes now_epoch now_iso device_path meth verification sim =
     (let wipe_id = ''wipe_'' @ str_int now_epoch @ ''_'' @ replace_slash device_path in
      if device_path \<in> set (map (\<lambda>w. device w) (map snd active_wipes))
      then (active_wipes, StartError ''Device is already being wiped'')
      else (AList.update wipe_id
              \<lparr>device = device_path, status = Starting, progress = 0, job_method = meth,
               start_time = now_iso, logs = [], job_simulated = sim,
               error = None, end_time = None\<rparr> active_wipes,
            Started wipe_id))"

text \<open>
  \<open>now\<close> is the clock as this call reads it, for the log entry or for the end time
  (no call of the service gives both a log line and the status \<open>completed\<close>).
\<close>

definition update_wipe_status ::
  "registry \<Rightarrow> string \<Rightarrow> string \<Rightarrow> job_status \<Rightarrow> int option \<Rightarrow> string option \<Rightarrow> string option \<Rightarrow>
   registry" where
  "update_wipe_status active_wipes now wipe_id st prog log err =
     (case map_of active_wipes wipe_id of
        None \<Rightarrow> active_wipes
      | Some job \<Rightarrow>
          (let job1 = job\<lparr>status := st\<rparr>;
               job2 = (case prog of None \<Rightarrow> job1 | Some p \<Rightarrow> job1\<lparr>progress := p\<rparr>);
               job3 = (if truthy log
                       then job2\<lparr>logs := logs job2 @ [\<lparr>log_timestamp = now, message = the log\<rparr>]\<rparr>
                       else job2);
               job4 = (if truthy err then job3\<lparr>error := err\<rparr> else job3);
               job5 = (if st = Completed then job4\<lparr>end_time := Some now\<rparr> else job4)
           in AList.update wipe_id job5 active_wipes))"

definition get_wipe_status :: "registry \<Rightarrow> string \<Rightarrow> wipe_job option" where
  "get_wipe_status active_wipes wipe_id = map_of active_wipes wipe_id"

text \<open>The slice \<open>xs[k:]\<close>; a negative \<open>k\<close> counts from the end.\<close>

definition slice_from :: "'a list \<Rightarrow> int \<Rightarrow> 'a list" where
  "slice_from xs k = (if 0 \<le> k then drop (nat k) xs else drop (nat (int (length xs) + k)) xs)"

record logs_result =
  lr_logs :: "log_entry list"
  total_count :: int
  lr_status :: job_status
  lr_progress :: int

definition get_wipe_logs :: "registry \<Rightarrow> string \<Rightarrow> int \<Rightarrow> logs_result option" where
  "get_wipe_logs active_wipes wipe_id since_index =
     (case map_of active_wipes wipe_id of
        Some job \<Rightarrow>
          Some \<lparr>lr_logs = slice_from (logs job) since_index,
                total_count = int (length (logs job)),
                lr_status = status job, lr_progress = progress job\<rparr>
      | None \<Rightarrow> None)"

subsection \<open>The simulated wipe\<close>

definition stages :: "string \<Rightarrow> string \<Rightarrow> string list" where
  "stages device_path meth =
     [''Initializing wipe operation...'',
      ''Target device: '' @ device_path,
      ''Method: '' @ meth,
      ''Starting erasure process...'',
      ''Pass 1/3: Writing random data...'',
      ''Progress: 10%'',
      ''Progress: 25%'',
      ''Progress: 40%'',
      ''Pass 2/3: Writing zeros...'',
      ''Progress: 50%'',
      ''Progress: 65%'',
      ''Progress: 75%'',
      ''Pass 3/3: Verification...'',
      ''Progress: 85%'',
      ''Progress: 95%'',
      ''Progress: 100%'',
      ''Wipe completed successfully!'',
      ''Device '' @ device_path @ '' has been securely erased.'']"

text \<open>
  The progress of the stage \<open>i\<close> of \<open>n\<close>. The last branch is \<open>int((i / n) * 100)\<close>; for
  the eighteen stages the quotient of the floating-point numbers, times 100 and
  truncated, is \<open>100 * i div 18\<close> at every index.
\<close>

definition stage_progress :: "nat \<Rightarrow> nat \<Rightarrow> string \<Rightarrow> py_error + int" where
  "stage_progress n i log =
     (if contains ''Progress:'' log
      then py_int (rstrip_percent (strip (split_second ''Progress:'' log)))
      else if i = n - 1 then Inr 100
      else Inr (int ((100 * i) div n)))"

text \<open>
  The loop over \<open>enumerate(stages)\<close>. \<open>clock k\<close> is the clock at the \<open>k\<close>-th update of
  the job. The result is the list of the registries after each update, in order, and the
  exception that ended the loop, if one did.
\<close>

fun simulated_loop ::
  "registry \<Rightarrow> (nat \<Rightarrow> string) \<Rightarrow> string \<Rightarrow> nat \<Rightarrow> nat \<Rightarrow> string list \<Rightarrow>
   registry list \<times> py_error option" where
  "simulated_loop reg clock wipe_id n i [] = ([], None)"
| "simulated_loop reg clock wipe_id n i (log # rest) =
     (case stage_progress n i log of
        Inl e \<Rightarrow> ([], Some e)
      | Inr p \<Rightarrow>
          (let reg' = update_wipe_status reg (clock i) wipe_id Running (Some p) (Some log) None in
           case simulated_loop reg' clock wipe_id n (Suc i) rest of
             (trace, raised) \<Rightarrow> (reg' # trace, raised)))"

definition run_simulated_wipe ::
  "registry \<Rightarrow> (nat \<Rightarrow> string) \<Rightarrow> string \<Rightarrow> string \<Rightarrow> string \<Rightarrow> registry list \<times> py_error option" where
  "run_simulated_wipe reg clock wipe_id device_path meth =
     (let st = stages device_path meth in
      case simulated_loop reg clock wipe_id (length st) 0 st of
        (trace, Some e) \<Rightarrow> (trace, Some e)
      | (trace, None) \<Rightarrow>
          (trace @ [update_wipe_status (last (reg # trace)) (clock (length st)) wipe_id
                      Completed (Some 100) None None], None))"

subsection \<open>The real wipe\<close>

text \<open>
  What the subprocess does: \<open>Popen\<close> raises, or the process writes lines and then the
  reading raises, or it writes lines and exits with a return code.
\<close>

datatype process =
    PopenRaises py_error
  | StreamRaises "string list" py_error
  | Exits "string list" int

definition method_map :: "string \<Rightarrow> string" where
  "method_map meth =
     (case map_of [(''dodshort'', ''dod522022m''), (''dod'', ''dodshort''),
                   (''gutmann'', ''gutmann''), (''random'', ''prng''), (''zero'', ''zero'')] meth of
        Some m \<Rightarrow> m | None \<Rightarrow> ''dodshort'')"

text \<open>
  \<open>re.search(r'(\d+)%', line)\<close>: the first run of digits that a percent sign follows.
\<close>

fun percent_search :: "string \<Rightarrow> string \<Rightarrow> int option" where
  "percent_search run [] = None"
| "percent_search run (c # cs) =
     (if is_digit c then percent_search (run @ [c]) cs
      else if c = CHR ''%'' \<and> run \<noteq> [] then Some (int (nat_of_digits 0 run))
      else percent_search [] cs)"

definition parse_nwipe_progress :: "string \<Rightarrow> int option" where
  "parse_nwipe_progress line = percent_search [] line"

fun stream_loop ::
  "registry \<Rightarrow> (nat \<Rightarrow> string) \<Rightarrow> string \<Rightarrow> nat \<Rightarrow> string list \<Rightarrow> registry list \<times> nat" where
  "stream_loop reg clock wipe_id k [] = ([], k)"
| "stream_loop reg clock wipe_id k (raw # rest) =
     (let line = strip raw in
      if line \<noteq> [] then
        (let reg' = update_wipe_status reg (clock k) wipe_id Running
                      (parse_nwipe_progress line) (Some line) None in
         case stream_loop reg' clock wipe_id (Suc k) rest of
           (trace, k') \<Rightarrow> (reg' # trace, k'))
      else stream_loop reg clock wipe_id k rest)"

text \<open>
  The result is the list of the registries after each update. Every exception is caught
  inside and recorded on the job.
\<close>

definition run_real_wipe ::
  "registry \<Rightarrow> (nat \<Rightarrow> string) \<Rightarrow> process \<Rightarrow> string \<Rightarrow> string \<Rightarrow> string \<Rightarrow> bool \<Rightarrow> registry list" where
  "run_real_wipe reg clock proc wipe_id device_path meth verification =
     (let cmd = [''sudo'', ''nwipe'', ''--autonuke'', ''--method'', method_map meth,
                 ''--verify'', (if verification then ''last'' else ''off''), ''--nogui'', device_path];
          reg0 = update_wipe_status reg (clock 0) wipe_id Running None
                   (Some (''Executing: '' @ join '' '' cmd)) None
      in case proc of
           PopenRaises e \<Rightarrow>
             [reg0, update_wipe_status reg0 (clock 1) wipe_id Failed None None (Some (str_error e))]
         | StreamRaises lines e \<Rightarrow>
             (case stream_loop reg0 clock wipe_id 1 lines of
                (trace, k) \<Rightarrow>
                  reg0 # trace @
                  [update_wipe_status (last (reg0 # trace)) (clock k) wipe_id Failed None None
                     (Some (str_error e))])
         | Exits lines returncode \<Rightarrow>
             (case stream_loop reg0 clock wipe_id 1 lines of
                (trace, k) \<Rightarrow>
                  reg0 # trace @
                  [if returncode = 0
                   then update_wipe_status (last (reg0 # trace)) (clock k) wipe_id Completed
                          (Some 100) None None
                   else update_wipe_status (last (reg0 # trace)) (clock k) wipe_id Failed
                          None None (Some ''nwipe exited with error'')]))"

text \<open>
  The worker of a job. An exception that escapes the simulated wipe is caught here and
  recorded on the job.
\<close>

definition run_wipe ::
  "registry \<Rightarrow> (nat \<Rightarrow> string) \<Rightarrow> process \<Rightarrow> string \<Rightarrow> string \<Rightarrow> string \<Rightarrow> bool \<Rightarrow> bool \<Rightarrow>
   registry list" where
  "run_wipe reg clock proc wipe_id device_path meth verification sim =
     (if sim then
        (case run_simulated_wipe reg clock wipe_id device_path meth of
           (trace, None) \<Rightarrow> trace
         | (trace, Some e) \<Rightarrow>
             trace @ [update_wipe_status (last (reg # trace)) (clock (length trace)) wipe_id
                        Failed None None (Some (str_error e))])
      else run_real_wipe reg clock proc wipe_id device_path meth verification)"

text \<open>The registry when the worker has ended.\<close>

definition final_registry :: "registry \<Rightarrow> registry list \<Rightarrow> registry" where
  "final_registry reg trace = last (reg # trace)"

text \<open>
  A client that polls the logs at the registries \<open>rs\<close>, one after the other, each time
  since the total count of the previous answer, and concatenates the answers.
\<close>

fun poll_logs :: "registry list \<Rightarrow> string \<Rightarrow> int \<Rightarrow> log_entry list" where
  "poll_logs [] wipe_id since = []"
| "poll_logs (r # rs) wipe_id since =
     (case get_wipe_logs r wipe_id since of
        None \<Rightarrow> []
      | Some res \<Rightarrow> lr_logs res @ poll_logs rs wipe_id (total_count res))"

section \<open>Certificates (certificate.py) and the certificate endpoint (app.py)\<close>

text \<open>The dictionaries of the device and of the report, as \<open>json.dumps\<close> gets them.\<close>

definition opt_item :: "string \<Rightarrow> json option \<Rightarrow> (string \<times> json) list" where
  "opt_item k v = (case v of None \<Rightarrow> [] | Some x \<Rightarrow> [(k, x)])"

definition device_items :: "device_info \<Rightarrow> (string \<times> json) list" where
  "device_items dev =
     opt_item ''serial'' (map_option JStr (serial dev)) @
     opt_item ''model'' (map_option JStr (model dev)) @
     opt_item ''type'' (map_option JStr (dev_type dev)) @
     dev_other dev"

definition report_items :: "wipe_report \<Rightarrow> (string \<times> json) list" where
  "report_items rpt =
     opt_item ''wipe_id'' (map_option JStr (rpt_wipe_id rpt)) @
     opt_item ''method'' (map_option JStr (rpt_method rpt)) @
     opt_item ''status'' (map_option JStr (rpt_status rpt)) @
     opt_item ''start_time'' (map_option JStr (rpt_start_time rpt)) @
     opt_item ''end_time'' (map_option JStr (rpt_end_time rpt)) @
     opt_item ''simulated'' (map_option JBool (rpt_simulated rpt)) @
     rpt_other rpt"

definition generate_cert_id ::
  "(string \<Rightarrow> string) \<Rightarrow> device_info \<Rightarrow> wipe_report \<Rightarrow> string \<Rightarrow> string" where
  "generate_cert_id H dev rpt now =
     (let data_str = get_default (serial dev) ''UNKNOWN'' @ ''_'' @
                     get_default (rpt_wipe_id rpt) [] @ ''_'' @ now
      in upper (take 16 (H data_str)))"

definition calculate_hash :: "(string \<Rightarrow> string) \<Rightarrow> json \<Rightarrow> string" where
  "calculate_hash H v = H (dumps v)"

record certificate =
  certificate_filename :: string
  cert_id :: string
  cert_hash :: string
  verification_url :: string

text \<open>
  \<open>now_file\<close> is the clock as the file name reads it (\<open>%Y%m%d_%H%M%S\<close>), \<open>now_id\<close>
  as the certificate id reads it (ISO format). The ledger entry is printed in the PDF
  only: the dictionary that is returned does not depend on it. The PDF is not modelled.
\<close>

definition generate_certificate ::
  "(string \<Rightarrow> string) \<Rightarrow> string \<Rightarrow> string \<Rightarrow> wipe_report \<Rightarrow> device_info \<Rightarrow>
   ledger_entry option \<Rightarrow> py_error + certificate" where
  "generate_certificate H now_file now_id rpt dev entry =
     (case serial dev of
        None \<Rightarrow> Inl (KeyError ''serial'')
      | Some s \<Rightarrow>
          (let filename = ''cert_'' @ s @ ''_'' @ now_file @ ''.pdf'';
               cid = generate_cert_id H dev rpt now_id;
               cert_data = JObj [(''device'', JObj (device_items dev)),
                                 (''wipe'', JObj (report_items rpt)),
                                 (''cert_id'', JStr cid)];
               chash = calculate_hash H cert_data
           in Inr \<lparr>certificate_filename = filename, cert_id = cid, cert_hash = chash,
                    verification_url = ''https://verify.erash.local/cert/'' @ cid\<rparr>))"

text \<open>The keys of a certificate that \<open>record_erasure\<close> reads.\<close>

definition certificate_dict :: "certificate \<Rightarrow> certificate_data" where
  "certificate_dict c =
     \<lparr>cd_certificate_id = Some (cert_id c), cd_certificate_hash = Some (cert_hash c)\<rparr>"

record clock_readings =
  temp_file :: string
  temp_id :: string
  txn_time :: string
  block_time :: string
  final_file :: string
  final_id :: string

text \<open>
  The end of the endpoint \<open>/api/certificate/generate\<close>, from the report and the device
  found: the certificate that is answered, the ledger entry and the ledger file
  afterwards. \<open>clk\<close> holds the readings of the clock in the order they are taken; without
  recording only the last two are taken.
\<close>

definition certificate_endpoint ::
  "(string \<Rightarrow> string) \<Rightarrow> clock_readings \<Rightarrow> ledger_file \<Rightarrow> wipe_report \<Rightarrow> device_info \<Rightarrow> bool \<Rightarrow>
   py_error + (ledger_file \<times> certificate \<times> ledger_entry option)" where
  "certificate_endpoint H clk f rpt dev record_on_blockchain =
     (if record_on_blockchain then
        (case generate_certificate H (temp_file clk) (temp_id clk) rpt dev None of
           Inl e \<Rightarrow> Inl e
         | Inr temp_cert \<Rightarrow>
             (case record_local_erasure H (txn_time clk) (block_time clk) f
                     (certificate_dict temp_cert) rpt dev of
                Inl e \<Rightarrow> Inl e
              | Inr (f', entry) \<Rightarrow>
                  (case generate_certificate H (final_file clk) (final_id clk) rpt dev (Some entry) of
                     Inl e \<Rightarrow> Inl e
                   | Inr cert \<Rightarrow> Inr (f', cert, Some entry))))
      else
        (case generate_certificate H (final_file clk) (final_id clk) rpt dev None of
           Inl e \<Rightarrow> Inl e
         | Inr cert \<Rightarrow> Inr (f, cert, None)))"

section \<open>Ledgers that the service builds, and the chain invariant\<close>

text \<open>
  A request to record an erasure, with the two readings of the clock that the call takes.
\<close>

record append_request =
  req_txn_time :: string
  req_block_time :: string
  req_cert :: certificate_data
  req_report :: wipe_report
  req_device :: device_info

text \<open>The calls of \<open>record_erasure\<close> for the requests, one after the other.\<close>

fun record_all :: "(string \<Rightarrow> string) \<Rightarrow> ledger_file \<Rightarrow> append_request list \<Rightarrow> py_error + ledger_file" where
  "record_all H f [] = Inr f"
| "record_all H f (r # rs) =
     (case record_local_erasure H (req_txn_time r) (req_block_time r) f
             (req_cert r) (req_report r) (req_device r) of
        Inl e \<Rightarrow> Inl e
      | Inr (f', entry) \<Rightarrow> record_all H f' rs)"

text \<open>
  The invariant of the chain, as a function that can be run: every block after the first
  names the stored hash of the block before it and stores the hash of its own content,
  and the indices count from 0.
\<close>

fun chain_linked :: "(string \<Rightarrow> string) \<Rightarrow> block list \<Rightarrow> bool" where
  "chain_linked H (p # c # bs) =
     (previous_hash c = block_hash p \<and> block_hash c = calculate_block_hash H c \<and>
      chain_linked H (c # bs))"
| "chain_linked H bs = True"

fun indices_from :: "int \<Rightarrow> block list \<Rightarrow> bool" where
  "indices_from n [] = True"
| "indices_from n (b # bs) = (block_index b = n \<and> indices_from (n + 1) bs)"

definition chain_invariant :: "(string \<Rightarrow> string) \<Rightarrow> block list \<Rightarrow> bool" where
  "chain_invariant H bs = (chain_linked H bs \<and> indices_from 0 bs)"

section \<open>The chain as the specification words it\<close>

text \<open>
  The specification hashes the canonical serialisation of a block: the JSON object of
  all of its fields except \<open>block_hash\<close>, every object written with its keys in
  lexicographic order. The three functions below write that text key by key, in the
  order in which the keys are listed; they follow the words of the specification and are
  compared with what \<open>calculate_block_hash\<close> hashes.
\<close>

definition spec_canonical_object :: "(string \<times> string) list \<Rightarrow> string" where
  "spec_canonical_object items =
     ''{'' @ join '', '' (map (\<lambda>kv. encode_str (fst kv) @ '': '' @ snd kv) items) @ ''}''"

definition spec_canonical_data :: "block_data \<Rightarrow> string" where
  "spec_canonical_data d =
     (case d of
        Genesis m \<Rightarrow>
          spec_canonical_object
            [(''message'', encode_str m),
             (''type'', encode_str ''genesis'')]
      | ErasureCertificate c \<Rightarrow>
          spec_canonical_object
            [(''certificate_hash'', encode_str (certificate_hash c)),
             (''certificate_id'', encode_str (certificate_id c)),
             (''device_model'', encode_str (device_model c)),
             (''device_serial'', encode_str (device_serial c)),
             (''device_type'', encode_str (device_type c)),
             (''simulated'', if simulated c then ''true'' else ''false''),
             (''type'', encode_str ''erasure_certificate''),
             (''wipe_end'', encode_str (wipe_end c)),
             (''wipe_method'', encode_str (wipe_method c)),
             (''wipe_start'', encode_str (wipe_start c)),
             (''wipe_status'', encode_str (wipe_status c))])"

definition spec_canonical_block :: "block \<Rightarrow> string" where
  "spec_canonical_block b =
     spec_canonical_object
       ([(''block_index'', str_int (block_index b)),
         (''data'', spec_canonical_data (data b)),
         (''previous_hash'', encode_str (previous_hash b)),
         (''timestamp'', encode_str (timestamp b))] @
        (case transaction_id b of
           None \<Rightarrow> []
         | Some t \<Rightarrow> [(''transaction_id'', encode_str t)]))"

text \<open>
  \<open>verify_chain(up_to_index)\<close> as the specification words it: for the blocks
  \<open>0..up_to_index\<close> inclusive, each block's previous hash is the stored hash of the
  block before it (the first block has none before it), and each block's stored hash is
  the hash recomputed from its content.
\<close>

definition spec_verify_chain :: "(string \<Rightarrow> string) \<Rightarrow> block list \<Rightarrow> int \<Rightarrow> bool" where
  "spec_verify_chain H bs up_to_index =
     list_all (\<lambda>i. (0 < i \<longrightarrow> previous_hash (bs ! i) = block_hash (bs ! (i - 1))) \<and>
                    block_hash (bs ! i) = H (spec_canonical_block (bs ! i)))
       (filter (\<lambda>i. int i \<le> up_to_index) [0..<length bs])"

section \<open>Properties of the ledger\<close>

lemma zero_hash_literal:
  "zero_hash = ''0000000000000000000000000000000000000000000000000000000000000000''"
  unfolding zero_hash_def by code_simp

text \<open>
  Claim C3. Initialisation without a ledger file creates a ledger of exactly one block,
  with index 0, the sentinel of 64 zeros as previous hash, and a stored hash that is the
  hash recomputed from the block. Initialisation with a file present, readable or not,
  leaves the file as it is, and initialising twice is initialising once.
\<close>

theorem C3_genesis_initialisation:
  "(\<exists>L g. initialize_local_ledger H tc tg NoFile = Stored L
        \<and> blocks L = [g]
        \<and> block_index g = 0
        \<and> previous_hash g = ''0000000000000000000000000000000000000000000000000000000000000000''
        \<and> length (previous_hash g) = 64
        \<and> block_hash g = calculate_block_hash H g)
   \<and> initialize_local_ledger H tc tg (Stored L0) = Stored L0
   \<and> initialize_local_ledger H tc tg Unreadable = Unreadable
   \<and> initialize_local_ledger H tc' tg' (initialize_local_ledger H tc tg f)
       = initialize_local_ledger H tc tg f"
  by (cases f)
     (simp_all add: initialize_local_ledger_def create_genesis_block_def Let_def
        zero_hash_literal calculate_block_hash_def block_copy_def)

lemma verify_loop_iff:
  "verify_loop H bs i =
     (\<forall>j. i \<le> j \<and> j < length bs \<longrightarrow>
        previous_hash (bs ! j) = block_hash (bs ! (j - 1)) \<and>
        calculate_block_hash H (bs ! j) = block_hash (bs ! j))"
proof (induction H bs i rule: verify_loop.induct)
  case (1 H bs i)
  show ?case
  proof (cases "i < length bs")
    case False
    then show ?thesis by (subst verify_loop.simps) auto
  next
    case True
    show ?thesis
    proof (cases "previous_hash (bs ! i) = block_hash (bs ! (i - 1)) \<and>
                  calculate_block_hash H (bs ! i) = block_hash (bs ! i)")
      case False
      with True show ?thesis
        by (subst verify_loop.simps) (auto simp: Let_def)
    next
      case ok: True
      with True have "verify_loop H bs i = verify_loop H bs (Suc i)"
        by (subst verify_loop.simps) (simp add: Let_def)
      also have "\<dots> = (\<forall>j. Suc i \<le> j \<and> j < length bs \<longrightarrow>
        previous_hash (bs ! j) = block_hash (bs ! (j - 1)) \<and>
        calculate_block_hash H (bs ! j) = block_hash (bs ! j))"
        using "1.IH" True ok by simp
      also have "\<dots> = (\<forall>j. i \<le> j \<and> j < length bs \<longrightarrow>
        previous_hash (bs ! j) = block_hash (bs ! (j - 1)) \<and>
        calculate_block_hash H (bs ! j) = block_hash (bs ! j))"
        using ok by (metis Suc_leI le_neq_implies_less Suc_le_lessD order_less_imp_le)
      finally show ?thesis .
    qed
  qed
qed

lemma chain_linked_index:
  "chain_linked H bs =
     (\<forall>i. 0 < i \<and> i < length bs \<longrightarrow>
        previous_hash (bs ! i) = block_hash (bs ! (i - 1)) \<and>
        block_hash (bs ! i) = calculate_block_hash H (bs ! i))"
proof (induction H bs rule: chain_linked.induct)
  case (1 H p c bs)
  have "(\<forall>i. 0 < i \<and> i < length (p # c # bs) \<longrightarrow>
        previous_hash ((p # c # bs) ! i) = block_hash ((p # c # bs) ! (i - 1)) \<and>
        block_hash ((p # c # bs) ! i) = calculate_block_hash H ((p # c # bs) ! i))
     = ((previous_hash c = block_hash p \<and> block_hash c = calculate_block_hash H c) \<and>
        (\<forall>i. 0 < i \<and> i < length (c # bs) \<longrightarrow>
        previous_hash ((c # bs) ! i) = block_hash ((c # bs) ! (i - 1)) \<and>
        block_hash ((c # bs) ! i) = calculate_block_hash H ((c # bs) ! i)))"
    (is "?L = (?A \<and> ?R)")
  proof
    assume L: ?L
    have A: ?A using L[rule_format, of 1] by simp
    have R: ?R
    proof (intro allI impI)
      fix i assume "0 < i \<and> i < length (c # bs)"
      then show "previous_hash ((c # bs) ! i) = block_hash ((c # bs) ! (i - 1)) \<and>
        block_hash ((c # bs) ! i) = calculate_block_hash H ((c # bs) ! i)"
        using L[rule_format, of "Suc i"] by (cases i) auto
    qed
    show "?A \<and> ?R" using A R by blast
  next
    assume AR: "?A \<and> ?R"
    show ?L
    proof (intro allI impI)
      fix i assume i: "0 < i \<and> i < length (p # c # bs)"
      show "previous_hash ((p # c # bs) ! i) = block_hash ((p # c # bs) ! (i - 1)) \<and>
        block_hash ((p # c # bs) ! i) = calculate_block_hash H ((p # c # bs) ! i)"
      proof (cases "i = 1")
        case True then show ?thesis using AR by simp
      next
        case False
        then obtain k where k: "i = Suc k" "0 < k" using i by (cases i) auto
        then show ?thesis using AR[THEN conjunct2, rule_format, of k] i by (cases k) auto
      qed
    qed
  qed
  then show ?case using 1 by simp
qed auto

lemma indices_from_index:
  "indices_from n bs = (\<forall>i < length bs. block_index (bs ! i) = n + int i)"
proof (induction bs arbitrary: n)
  case Nil then show ?case by simp
next
  case (Cons b bs)
  show ?case
  proof
    assume "indices_from n (b # bs)"
    then have b: "block_index b = n" and r: "\<forall>i < length bs. block_index (bs ! i) = n + 1 + int i"
      using Cons.IH[of "n + 1"] by auto
    show "\<forall>i<length (b # bs). block_index ((b # bs) ! i) = n + int i"
    proof (intro allI impI)
      fix i assume "i < length (b # bs)"
      then show "block_index ((b # bs) ! i) = n + int i" using b r by (cases i) auto
    qed
  next
    assume a: "\<forall>i<length (b # bs). block_index ((b # bs) ! i) = n + int i"
    have "block_index b = n" using a[rule_format, of 0] by simp
    moreover have "\<forall>i < length bs. block_index (bs ! i) = n + 1 + int i"
    proof (intro allI impI)
      fix i assume "i < length bs"
      then show "block_index (bs ! i) = n + 1 + int i" using a[rule_format, of "Suc i"] by simp
    qed
    ultimately show "indices_from n (b # bs)" using Cons.IH[of "n + 1"] by simp
  qed
qed

lemma calculate_block_hash_ignores_stored:
  "calculate_block_hash H (b\<lparr>block_hash := h\<rparr>) = calculate_block_hash H b"
  by (simp add: calculate_block_hash_def block_copy_def)

lemma chain_linked_snoc:
  "bs \<noteq> [] \<Longrightarrow>
   chain_linked H (bs @ [b]) =
     (chain_linked H bs \<and> previous_hash b = block_hash (last bs) \<and>
      block_hash b = calculate_block_hash H b)"
proof (induction H bs rule: chain_linked.induct)
  case (1 H p c bs)
  then show ?case by auto
qed simp_all

lemma indices_from_snoc:
  "indices_from n (bs @ [b]) = (indices_from n bs \<and> block_index b = n + int (length bs))"
proof (induction bs arbitrary: n)
  case Nil
  show ?case by simp
next
  case (Cons a bs)
  have eq: "n + 1 + int (length bs) = n + int (length (a # bs))" by simp
  have "indices_from n ((a # bs) @ [b]) = (block_index a = n \<and> indices_from (n + 1) (bs @ [b]))"
    by simp
  also have "\<dots> = (block_index a = n \<and> indices_from (n + 1) bs \<and>
                     block_index b = n + 1 + int (length bs))"
    by (simp only: Cons.IH)
  also have "\<dots> = (indices_from n (a # bs) \<and> block_index b = n + int (length (a # bs)))"
    by (simp only: eq indices_from.simps conj_assoc)
  finally show ?case .
qed

lemma chain_invariant_snoc:
  "bs \<noteq> [] \<Longrightarrow>
   chain_invariant H (bs @ [b]) =
     (chain_invariant H bs \<and> previous_hash b = block_hash (last bs) \<and>
      block_hash b = calculate_block_hash H b \<and> block_index b = int (length bs))"
proof -
  assume ne: "bs \<noteq> []"
  have 1: "chain_linked H (bs @ [b]) =
     (chain_linked H bs \<and> previous_hash b = block_hash (last bs) \<and>
      block_hash b = calculate_block_hash H b)"
    using ne by (rule chain_linked_snoc)
  have 2: "indices_from 0 (bs @ [b]) = (indices_from 0 bs \<and> block_index b = int (length bs))"
    using indices_from_snoc[of 0 bs b] by simp
  show ?thesis unfolding chain_invariant_def 1 2 by blast
qed

lemma record_local_erasure_stored:
  "\<exists>b e. record_local_erasure H tt tb (Stored L) cert rpt dev =
            Inr (Stored (L\<lparr>blocks := blocks L @ [b]\<rparr>), e) \<and>
     block_index b = int (length (blocks L)) \<and>
     previous_hash b = (if blocks L \<noteq> [] then block_hash (last (blocks L)) else zero_hash) \<and>
     block_hash b = calculate_block_hash H b \<and>
     timestamp b = tb \<and>
     transaction_id b = Some (generate_transaction_id H dev rpt tt) \<and>
     (case data b of
        Genesis m \<Rightarrow> False
      | ErasureCertificate c \<Rightarrow>
          certificate_id c = get_default (cd_certificate_id cert) ''N/A'' \<and>
          certificate_hash c = get_default (cd_certificate_hash cert) ''N/A'' \<and>
          device_serial c = get_default (serial dev) ''N/A'') \<and>
     entry_block_index e = block_index b \<and> entry_block_hash e = block_hash b \<and>
     entry_transaction_id e = generate_transaction_id H dev rpt tt \<and>
     entry_timestamp e = tb"
  unfolding record_local_erasure_def load_ledger_def Let_def
  apply (simp only: ledger_file.case sum.case)
  apply (intro exI conjI)
  apply (rule refl)
  apply (simp_all add: calculate_block_hash_def block_copy_def)
  done


lemma record_all_invariant:
  "chain_invariant H (blocks L) \<Longrightarrow> blocks L \<noteq> [] \<Longrightarrow>
   \<exists>L'. record_all H (Stored L) reqs = Inr (Stored L') \<and>
        chain_invariant H (blocks L') \<and>
        length (blocks L') = length (blocks L) + length reqs \<and>
        hd (blocks L') = hd (blocks L)"
proof (induction reqs arbitrary: L)
  case Nil
  then show ?case by simp
next
  case (Cons r rs)
  obtain b e where step:
    "record_local_erasure H (req_txn_time r) (req_block_time r) (Stored L)
        (req_cert r) (req_report r) (req_device r) =
      Inr (Stored (L\<lparr>blocks := blocks L @ [b]\<rparr>), e)"
    and b: "block_index b = int (length (blocks L))"
       "previous_hash b = (if blocks L \<noteq> [] then block_hash (last (blocks L)) else zero_hash)"
       "block_hash b = calculate_block_hash H b"
    using record_local_erasure_stored[of H "req_txn_time r" "req_block_time r" L
            "req_cert r" "req_report r" "req_device r"] by blast
  let ?L1 = "L\<lparr>blocks := blocks L @ [b]\<rparr>"
  have bl1: "blocks ?L1 = blocks L @ [b]" by simp
  have inv1: "chain_invariant H (blocks ?L1)"
    unfolding bl1 using Cons.prems b by (simp add: chain_invariant_snoc)
  have ne1: "blocks ?L1 \<noteq> []" by simp
  obtain L' where L': "record_all H (Stored ?L1) rs = Inr (Stored L')"
      "chain_invariant H (blocks L')"
      "length (blocks L') = length (blocks ?L1) + length rs"
      "hd (blocks L') = hd (blocks ?L1)"
    using Cons.IH[OF inv1 ne1] by blast
  have r: "record_all H (Stored L) (r # rs) = Inr (Stored L')"
    using step L'(1) by simp
  have len: "length (blocks L') = length (blocks L) + length (r # rs)"
    using L'(3) by simp
  have h: "hd (blocks L') = hd (blocks L)"
    using L'(4) Cons.prems(2) by simp
  show ?case using r L'(2) len h by blast
qed

lemma genesis_invariant:
  "chain_invariant H [create_genesis_block H tg]"
  by (simp add: chain_invariant_def create_genesis_block_def Let_def)

lemma reachable_invariant:
  "\<exists>L. record_all H (initialize_local_ledger H tc tg NoFile) reqs = Inr (Stored L) \<and>
       chain_invariant H (blocks L) \<and> length (blocks L) = Suc (length reqs) \<and>
       hd (blocks L) = create_genesis_block H tg"
proof -
  let ?L0 = "\<lparr>ledger_version = ''1.0'', created_at = tc,
                  ledger_type = ''local_immutable'',
                  description = ''Immutable ledger for disk erasure certificates'',
                  blocks = [create_genesis_block H tg]\<rparr>"
  have init: "initialize_local_ledger H tc tg NoFile = Stored ?L0"
    by (simp add: initialize_local_ledger_def)
  have inv: "chain_invariant H (blocks ?L0)" using genesis_invariant[of H tg] by simp
  have ne: "blocks ?L0 \<noteq> []" by simp
  show ?thesis
    unfolding init using record_all_invariant[OF inv ne, of reqs] by simp
qed

text \<open>What \<open>calculate_block_hash\<close> hashes is the canonical form of the block.\<close>

lemma dumps_data_items: "dumps (JObj (data_items d)) = spec_canonical_data d"
  by (cases d) (simp_all add: data_items_def spec_canonical_data_def spec_canonical_object_def)

lemma dumps_block_items:
  "dumps (JObj ([(''block_index'', JInt i), (''timestamp'', JStr t)] @
                (case tx of None \<Rightarrow> [] | Some x \<Rightarrow> [(''transaction_id'', JStr x)]) @
                [(''data'', D), (''previous_hash'', JStr p)])) =
   spec_canonical_object
       ([(''block_index'', str_int i),
         (''data'', dumps D),
         (''previous_hash'', encode_str p),
         (''timestamp'', encode_str t)] @
        (case tx of
           None \<Rightarrow> []
         | Some x \<Rightarrow> [(''transaction_id'', encode_str x)]))"
  by (cases tx) (simp_all add: spec_canonical_object_def)

lemma dumps_block_copy: "dumps (JObj (block_copy b)) = spec_canonical_block b"
  unfolding block_copy_def spec_canonical_block_def dumps_block_items dumps_data_items ..

text \<open>
  Claim C2. Recording an erasure on a stored ledger that has blocks appends one block:
  its index is the previous length, its previous hash is the stored hash of the block that
  was last, and its hash is the digest of the canonical form of the block, the JSON text
  of all its fields except \<open>block_hash\<close> with the keys of every object in lexicographic
  order; the chain invariant is kept. Hence in every ledger that initialisation and any
  number of recordings build, each block after the first names the stored hash of the
  block before it and stores the digest of its own canonical form, and the indices are
  \<open>0, 1, \<dots>\<close> without a gap.
\<close>

theorem C2_append_keeps_chain:
  "(blocks L \<noteq> [] \<longrightarrow>
      (\<exists>L' e b. record_local_erasure H tt tb (Stored L) cert rpt dev = Inr (Stored L', e)
        \<and> blocks L' = blocks L @ [b]
        \<and> block_index b = int (length (blocks L))
        \<and> previous_hash b = block_hash (last (blocks L))
        \<and> block_hash b = H (spec_canonical_block b)
        \<and> (chain_invariant H (blocks L) \<longrightarrow> chain_invariant H (blocks L'))))
   \<and> (\<exists>L. record_all H (initialize_local_ledger H tc tg NoFile) reqs = Inr (Stored L)
        \<and> length (blocks L) = Suc (length reqs)
        \<and> (\<forall>i. 0 < i \<and> i < length (blocks L) \<longrightarrow>
              previous_hash (blocks L ! i) = block_hash (blocks L ! (i - 1))
              \<and> block_hash (blocks L ! i) = H (spec_canonical_block (blocks L ! i)))
        \<and> (\<forall>i < length (blocks L). block_index (blocks L ! i) = int i))"
proof (intro conjI impI)
  assume ne: "blocks L \<noteq> []"
  obtain b e where step:
    "record_local_erasure H tt tb (Stored L) cert rpt dev =
      Inr (Stored (L\<lparr>blocks := blocks L @ [b]\<rparr>), e)"
    and b: "block_index b = int (length (blocks L))"
       "previous_hash b = (if blocks L \<noteq> [] then block_hash (last (blocks L)) else zero_hash)"
       "block_hash b = calculate_block_hash H b"
    using record_local_erasure_stored[of H tt tb L cert rpt dev] by blast
  let ?L1 = "L\<lparr>blocks := blocks L @ [b]\<rparr>"
  have bl1: "blocks ?L1 = blocks L @ [b]" by simp
  have prev: "previous_hash b = block_hash (last (blocks L))" using b(2) ne by simp
  have hash: "block_hash b = H (spec_canonical_block b)"
    using b(3) unfolding calculate_block_hash_def dumps_block_copy .
  have keep: "chain_invariant H (blocks L) \<longrightarrow> chain_invariant H (blocks ?L1)"
    unfolding bl1 using ne b(1) b(3) prev by (simp add: chain_invariant_snoc)
  show "\<exists>L' e b. record_local_erasure H tt tb (Stored L) cert rpt dev = Inr (Stored L', e)
        \<and> blocks L' = blocks L @ [b]
        \<and> block_index b = int (length (blocks L))
        \<and> previous_hash b = block_hash (last (blocks L))
        \<and> block_hash b = H (spec_canonical_block b)
        \<and> (chain_invariant H (blocks L) \<longrightarrow> chain_invariant H (blocks L'))"
    using step bl1 b(1) prev hash keep by blast
next
  obtain L where L: "record_all H (initialize_local_ledger H tc tg NoFile) reqs = Inr (Stored L)"
      "chain_invariant H (blocks L)" "length (blocks L) = Suc (length reqs)"
    using reachable_invariant[of H tc tg reqs] by blast
  have links: "\<forall>i. 0 < i \<and> i < length (blocks L) \<longrightarrow>
              previous_hash (blocks L ! i) = block_hash (blocks L ! (i - 1))
              \<and> block_hash (blocks L ! i) = H (spec_canonical_block (blocks L ! i))"
    using L(2) unfolding chain_invariant_def chain_linked_index calculate_block_hash_def
      dumps_block_copy
    by blast
  have idx: "\<forall>i < length (blocks L). block_index (blocks L ! i) = int i"
    using L(2) unfolding chain_invariant_def indices_from_index by simp
  show "\<exists>L. record_all H (initialize_local_ledger H tc tg NoFile) reqs = Inr (Stored L)
        \<and> length (blocks L) = Suc (length reqs)
        \<and> (\<forall>i. 0 < i \<and> i < length (blocks L) \<longrightarrow>
              previous_hash (blocks L ! i) = block_hash (blocks L ! (i - 1))
              \<and> block_hash (blocks L ! i) = H (spec_canonical_block (blocks L ! i)))
        \<and> (\<forall>i < length (blocks L). block_index (blocks L ! i) = int i)"
    using L(1) L(3) links idx by blast
qed

theorem C2_append_keeps_chain_witness:
  "blocks \<lparr>ledger_version = ''1.0'', created_at = ''c'', ledger_type = ''local_immutable'',
           description = ''d'',
           blocks = [\<lparr>block_index = 0, timestamp = ''t0'', transaction_id = None,
                      data = Genesis ''m'', previous_hash = ''0'', block_hash = ''h0''\<rparr>]\<rparr> \<noteq> []
   \<and> chain_invariant (\<lambda>s. s)
        [\<lparr>block_index = 0, timestamp = ''t0'', transaction_id = None,
          data = Genesis ''m'', previous_hash = ''0'', block_hash = ''h0''\<rparr>]
   \<and> (\<exists>L' e b. record_local_erasure (\<lambda>s. s) ''t1'' ''t2''
          (Stored \<lparr>ledger_version = ''1.0'', created_at = ''c'', ledger_type = ''local_immutable'',
                   description = ''d'',
                   blocks = [\<lparr>block_index = 0, timestamp = ''t0'', transaction_id = None,
                              data = Genesis ''m'', previous_hash = ''0'', block_hash = ''h0''\<rparr>]\<rparr>)
          \<lparr>cd_certificate_id = Some ''ID'', cd_certificate_hash = Some ''HASH''\<rparr>
          \<lparr>rpt_wipe_id = Some ''w'', rpt_method = None, rpt_status = None,
           rpt_start_time = None, rpt_end_time = None, rpt_simulated = None, rpt_other = []\<rparr>
          \<lparr>serial = Some ''S'', model = None, dev_type = None, dev_other = []\<rparr>
          = Inr (Stored L', e)
        \<and> blocks L' = [\<lparr>block_index = 0, timestamp = ''t0'', transaction_id = None,
                          data = Genesis ''m'', previous_hash = ''0'', block_hash = ''h0''\<rparr>, b]
        \<and> block_index b = 1
        \<and> previous_hash b = ''h0''
        \<and> block_hash b = ''{\"block_index\": 1, \"data\": {\"certificate_hash\": \"HASH\", \"certificate_id\": \"ID\", \"device_model\": \"Unknown\", \"device_serial\": \"S\", \"device_type\": \"Unknown\", \"simulated\": false, \"type\": \"erasure_certificate\", \"wipe_end\": \"N/A\", \"wipe_method\": \"Unknown\", \"wipe_start\": \"N/A\", \"wipe_status\": \"Unknown\"}, \"previous_hash\": \"h0\", \"timestamp\": \"t2\", \"transaction_id\": \"TXN-S_W_T1\"}''
        \<and> chain_invariant (\<lambda>s. s) (blocks L'))"
proof -
  let ?g = "\<lparr>block_index = 0, timestamp = ''t0'', transaction_id = None,
             data = Genesis ''m'', previous_hash = ''0'', block_hash = ''h0''\<rparr>"
  let ?L = "\<lparr>ledger_version = ''1.0'', created_at = ''c'', ledger_type = ''local_immutable'',
           description = ''d'', blocks = [?g]\<rparr>"
  let ?c = "\<lparr>block_index = 1, timestamp = ''t2'', transaction_id = Some ''TXN-S_W_T1'',
       data = ErasureCertificate
         \<lparr>certificate_id = ''ID'', certificate_hash = ''HASH'', device_serial = ''S'',
          device_model = ''Unknown'', device_type = ''Unknown'', wipe_method = ''Unknown'',
          wipe_status = ''Unknown'', wipe_start = ''N/A'', wipe_end = ''N/A'',
          simulated = False\<rparr>,
       previous_hash = ''h0'',
       block_hash = ''{\"block_index\": 1, \"data\": {\"certificate_hash\": \"HASH\", \"certificate_id\": \"ID\", \"device_model\": \"Unknown\", \"device_serial\": \"S\", \"device_type\": \"Unknown\", \"simulated\": false, \"type\": \"erasure_certificate\", \"wipe_end\": \"N/A\", \"wipe_method\": \"Unknown\", \"wipe_start\": \"N/A\", \"wipe_status\": \"Unknown\"}, \"previous_hash\": \"h0\", \"timestamp\": \"t2\", \"transaction_id\": \"TXN-S_W_T1\"}''\<rparr>"
  have ne: "blocks ?L \<noteq> []" by simp
  have inv: "chain_invariant (\<lambda>s. s) (blocks ?L)"
    by (simp add: chain_invariant_def)
  have run: "record_local_erasure (\<lambda>s. s) ''t1'' ''t2'' (Stored ?L)
          \<lparr>cd_certificate_id = Some ''ID'', cd_certificate_hash = Some ''HASH''\<rparr>
          \<lparr>rpt_wipe_id = Some ''w'', rpt_method = None, rpt_status = None,
           rpt_start_time = None, rpt_end_time = None, rpt_simulated = None, rpt_other = []\<rparr>
          \<lparr>serial = Some ''S'', model = None, dev_type = None, dev_other = []\<rparr>
          = Inr (Stored (?L\<lparr>blocks := [?g, ?c]\<rparr>),
                 \<lparr>entry_ledger_type = ''local'', entry_block_index = 1,
                  entry_block_hash = block_hash ?c,
                  entry_transaction_id = ''TXN-S_W_T1'', entry_timestamp = ''t2'',
                  entry_previous_hash = ''h0'', entry_certificate_hash = ''HASH''\<rparr>)"
    by code_simp
  obtain L' e b where r: "record_local_erasure (\<lambda>s. s) ''t1'' ''t2'' (Stored ?L)
          \<lparr>cd_certificate_id = Some ''ID'', cd_certificate_hash = Some ''HASH''\<rparr>
          \<lparr>rpt_wipe_id = Some ''w'', rpt_method = None, rpt_status = None,
           rpt_start_time = None, rpt_end_time = None, rpt_simulated = None, rpt_other = []\<rparr>
          \<lparr>serial = Some ''S'', model = None, dev_type = None, dev_other = []\<rparr>
          = Inr (Stored L', e)"
      and bl: "blocks L' = blocks ?L @ [b]"
      and ix: "block_index b = int (length (blocks ?L))"
      and ph: "previous_hash b = block_hash (last (blocks ?L))"
      and bh: "block_hash b = spec_canonical_block b"
      and ci: "chain_invariant (\<lambda>s. s) (blocks L')"
    using ne inv
      C2_append_keeps_chain[of ?L "\<lambda>s. s" "''t1''" "''t2''"
        "\<lparr>cd_certificate_id = Some ''ID'', cd_certificate_hash = Some ''HASH''\<rparr>"
        "\<lparr>rpt_wipe_id = Some ''w'', rpt_method = None, rpt_status = None,
           rpt_start_time = None, rpt_end_time = None, rpt_simulated = None, rpt_other = []\<rparr>"
        "\<lparr>serial = Some ''S'', model = None, dev_type = None, dev_other = []\<rparr>"
        "''c''" "''g''" "[]"]
    by blast
  have L': "L' = ?L\<lparr>blocks := [?g, ?c]\<rparr>" using r unfolding run by simp
  have b: "b = ?c" using bl unfolding L' by simp
  have bl': "blocks L' = [?g, b]" using bl by simp
  have ix': "block_index b = 1" using ix by simp
  have ph': "previous_hash b = ''h0''" using ph by simp
  have bh': "block_hash b = ''{\"block_index\": 1, \"data\": {\"certificate_hash\": \"HASH\", \"certificate_id\": \"ID\", \"device_model\": \"Unknown\", \"device_serial\": \"S\", \"device_type\": \"Unknown\", \"simulated\": false, \"type\": \"erasure_certificate\", \"wipe_end\": \"N/A\", \"wipe_method\": \"Unknown\", \"wipe_start\": \"N/A\", \"wipe_status\": \"Unknown\"}, \"previous_hash\": \"h0\", \"timestamp\": \"t2\", \"transaction_id\": \"TXN-S_W_T1\"}''"
    unfolding b by simp
  show ?thesis
    apply (intro conjI)
      apply (rule ne)
     apply (rule inv[simplified])
    apply (rule exI[of _ L'], rule exI[of _ e], rule exI[of _ b])
    apply (intro conjI)
         apply (rule r)
        apply (rule bl')
       apply (rule ix')
      apply (rule ph')
     apply (rule bh')
    apply (rule ci)
    done
qed

lemma slice_to_take: "\<exists>m. slice_to xs n = take m xs"
  by (auto simp: slice_to_def)

lemma verify_loop_take:
  assumes "chain_linked H bs"
  shows "verify_loop H (take m bs) 1"
proof -
  have "\<forall>j. 1 \<le> j \<and> j < length (take m bs) \<longrightarrow>
        previous_hash (take m bs ! j) = block_hash (take m bs ! (j - 1)) \<and>
        calculate_block_hash H (take m bs ! j) = block_hash (take m bs ! j)"
  proof (intro allI impI)
    fix j assume j: "1 \<le> j \<and> j < length (take m bs)"
    then have jm: "j < m" and jl: "j < length bs" by auto
    have a: "take m bs ! j = bs ! j" using jm by simp
    have b: "take m bs ! (j - 1) = bs ! (j - 1)" using jm by simp
    have "previous_hash (bs ! j) = block_hash (bs ! (j - 1)) \<and>
          block_hash (bs ! j) = calculate_block_hash H (bs ! j)"
      using assms j jl unfolding chain_linked_index by simp
    then show "previous_hash (take m bs ! j) = block_hash (take m bs ! (j - 1)) \<and>
        calculate_block_hash H (take m bs ! j) = block_hash (take m bs ! j)"
      unfolding a b by simp
  qed
  then show ?thesis unfolding verify_loop_iff by simp
qed

text \<open>A ledger that satisfies the invariant verifies up to every index.\<close>

lemma verify_chain_of_invariant:
  "chain_invariant H (blocks L) \<Longrightarrow> verify_chain_integrity H L k"
proof -
  assume inv: "chain_invariant H (blocks L)"
  obtain m where m: "slice_to (blocks L) (k + 1) = take m (blocks L)"
    using slice_to_take by blast
  show ?thesis
    unfolding verify_chain_integrity_def m
    using inv verify_loop_take unfolding chain_invariant_def by blast
qed

text \<open>
  The loop never reads the first block but for its stored hash: a first block with the
  same stored hash gives the same result.
\<close>

lemma verify_loop_first_block:
  assumes "block_hash g' = block_hash g"
  shows "verify_loop H (take m (g' # rest)) 1 = verify_loop H (take m (g # rest)) 1"
proof -
  have len: "length (take m (g' # rest)) = length (take m (g # rest))" by simp
  have step: "\<And>j. 1 \<le> j \<and> j < length (take m (g # rest)) \<Longrightarrow>
      take m (g' # rest) ! j = take m (g # rest) ! j \<and>
      block_hash (take m (g' # rest) ! (j - 1)) = block_hash (take m (g # rest) ! (j - 1))"
  proof -
    fix j assume j: "1 \<le> j \<and> j < length (take m (g # rest))"
    then have jm: "j < m" by simp
    obtain i where i: "j = Suc i" using j by (cases j) auto
    have a: "take m (g' # rest) ! j = take m (g # rest) ! j" using jm i by simp
    have b: "block_hash (take m (g' # rest) ! (j - 1)) = block_hash (take m (g # rest) ! (j - 1))"
      using jm i assms by (cases i) auto
    show "take m (g' # rest) ! j = take m (g # rest) ! j \<and>
      block_hash (take m (g' # rest) ! (j - 1)) = block_hash (take m (g # rest) ! (j - 1))"
      using a b by simp
  qed
  show ?thesis
    unfolding verify_loop_iff len using step by (metis (no_types, lifting))
qed

lemma verify_chain_first_block:
  assumes "block_hash g' = block_hash g"
  shows "verify_chain_integrity H (L\<lparr>blocks := g' # rest\<rparr>) k =
         verify_chain_integrity H (L\<lparr>blocks := g # rest\<rparr>) k"
proof -
  have "slice_to (g' # rest) (k + 1) = take (if 0 \<le> k + 1 then nat (k + 1)
          else nat (int (length (g # rest)) + (k + 1))) (g' # rest)"
    by (simp add: slice_to_def)
  moreover have "slice_to (g # rest) (k + 1) = take (if 0 \<le> k + 1 then nat (k + 1)
          else nat (int (length (g # rest)) + (k + 1))) (g # rest)"
    by (simp add: slice_to_def)
  ultimately show ?thesis
    unfolding verify_chain_integrity_def using verify_loop_first_block[OF assms] by simp
qed

text \<open>
  A block after the first whose payload or previous hash was changed, with its stored hash
  left as it was, is detected at every index from its own on, when the hash of the changed
  content differs from the hash of the original content.
\<close>

lemma tampering_after_first_detected:
  assumes inv: "chain_invariant H bs"
    and i: "0 < i" "i < length bs"
    and stored: "block_hash b' = block_hash (bs ! i)"
    and changed: "previous_hash b' \<noteq> previous_hash (bs ! i) \<or>
                  calculate_block_hash H b' \<noteq> calculate_block_hash H (bs ! i)"
    and k: "int i \<le> k"
  shows "\<not> verify_chain_integrity H (L\<lparr>blocks := bs[i := b']\<rparr>) k"
proof -
  let ?bs = "bs[i := b']"
  have sl: "slice_to ?bs (k + 1) = take (nat (k + 1)) ?bs"
    using k by (simp add: slice_to_def)
  have im: "i < nat (k + 1)" using k by linarith
  have li: "i < length (take (nat (k + 1)) ?bs)" using i im by simp
  have at_i: "take (nat (k + 1)) ?bs ! i = b'" using i im by simp
  have at_p: "take (nat (k + 1)) ?bs ! (i - 1) = bs ! (i - 1)" using i im by simp
  have orig: "previous_hash (bs ! i) = block_hash (bs ! (i - 1)) \<and>
              block_hash (bs ! i) = calculate_block_hash H (bs ! i)"
    using inv i unfolding chain_invariant_def chain_linked_index by simp
  have bad: "\<not> (previous_hash b' = block_hash (bs ! (i - 1)) \<and>
                calculate_block_hash H b' = block_hash b')"
    using changed orig stored by auto
  have "\<not> verify_loop H (take (nat (k + 1)) ?bs) 1"
  proof
    assume "verify_loop H (take (nat (k + 1)) ?bs) 1"
    then have "previous_hash (take (nat (k + 1)) ?bs ! i) =
                 block_hash (take (nat (k + 1)) ?bs ! (i - 1)) \<and>
               calculate_block_hash H (take (nat (k + 1)) ?bs ! i) =
                 block_hash (take (nat (k + 1)) ?bs ! i)"
      unfolding verify_loop_iff using i(1) li by (metis Suc_leI One_nat_def)
    then show False using bad unfolding at_i at_p by simp
  qed
  then show ?thesis by (simp add: verify_chain_integrity_def sl)
qed

text \<open>
  Claim C1, at the first block. In every ledger that initialisation and recordings
  build, replace the payload and the previous hash of the genesis block by anything
  and leave its stored hash: the chain still verifies up to every index. The loop of
  \<open>verify_chain_integrity\<close> starts at index 1 and recomputes the hash of the blocks
  from 1 on only.
\<close>

theorem C1_genesis_tampering_not_detected:
  "\<exists>L g rest. record_all H (initialize_local_ledger H tc tg NoFile) reqs = Inr (Stored L)
     \<and> blocks L = g # rest \<and> g = create_genesis_block H tg
     \<and> verify_chain_integrity H L k = True
     \<and> verify_chain_integrity H
          (L\<lparr>blocks := g\<lparr>data := Genesis m', previous_hash := p'\<rparr> # rest\<rparr>) k = True"
proof -
  obtain L where L: "record_all H (initialize_local_ledger H tc tg NoFile) reqs = Inr (Stored L)"
      "chain_invariant H (blocks L)" "length (blocks L) = Suc (length reqs)"
      "hd (blocks L) = create_genesis_block H tg"
    using reachable_invariant[of H tc tg reqs] by blast
  obtain g rest where gr: "blocks L = g # rest" using L(3) by (cases "blocks L") auto
  have g: "g = create_genesis_block H tg" using L(4) gr by simp
  have same: "L\<lparr>blocks := g # rest\<rparr> = L" using gr by simp
  have ok: "verify_chain_integrity H L k" using L(2) by (rule verify_chain_of_invariant)
  have "verify_chain_integrity H
          (L\<lparr>blocks := g\<lparr>data := Genesis m', previous_hash := p'\<rparr> # rest\<rparr>) k =
        verify_chain_integrity H (L\<lparr>blocks := g # rest\<rparr>) k"
    by (rule verify_chain_first_block) simp
  then have t: "verify_chain_integrity H
          (L\<lparr>blocks := g\<lparr>data := Genesis m', previous_hash := p'\<rparr> # rest\<rparr>) k"
    using ok same by simp
  show ?thesis using L(1) gr g ok t by blast
qed

section \<open>Properties of the verification and of the search\<close>

lemma last_filter_position:
  "filter P xs \<noteq> [] \<Longrightarrow>
   \<exists>i < length xs. xs ! i = last (filter P xs) \<and> P (xs ! i) \<and>
      (\<forall>j. i < j \<and> j < length xs \<longrightarrow> \<not> P (xs ! j))"
proof (induction xs rule: rev_induct)
  case Nil
  then show ?case by simp
next
  case (snoc x xs)
  show ?case
  proof (cases "P x")
    case True
    have "length xs < length (xs @ [x])" by simp
    moreover have "(xs @ [x]) ! length xs = last (filter P (xs @ [x]))" using True by simp
    moreover have "P ((xs @ [x]) ! length xs)" using True by simp
    moreover have "\<forall>j. length xs < j \<and> j < length (xs @ [x]) \<longrightarrow> \<not> P ((xs @ [x]) ! j)"
      by auto
    ultimately show ?thesis by blast
  next
    case False
    then have f: "filter P (xs @ [x]) = filter P xs" by simp
    then have "filter P xs \<noteq> []" using snoc.prems by simp
    then obtain i where i: "i < length xs" "xs ! i = last (filter P xs)" "P (xs ! i)"
        "\<forall>j. i < j \<and> j < length xs \<longrightarrow> \<not> P (xs ! j)"
      using snoc.IH by blast
    have a: "i < length (xs @ [x])" using i(1) by simp
    have b: "(xs @ [x]) ! i = last (filter P (xs @ [x]))"
      using i(1) i(2) f by (simp add: nth_append)
    have c: "P ((xs @ [x]) ! i)" using i(1) i(3) by (simp add: nth_append)
    have d: "\<forall>j. i < j \<and> j < length (xs @ [x]) \<longrightarrow> \<not> P ((xs @ [x]) ! j)"
    proof (intro allI impI)
      fix j assume j: "i < j \<and> j < length (xs @ [x])"
      show "\<not> P ((xs @ [x]) ! j)"
      proof (cases "j < length xs")
        case True
        then show ?thesis using i(4) j by (simp add: nth_append)
      next
        case nl: False
        then have "j = length xs" using j by simp
        then show ?thesis using False by simp
      qed
    qed
    show ?thesis using a b c d by blast
  qed
qed

lemma block_matches_iff:
  "block_matches cid sn ch b =
     (case data b of
        Genesis m \<Rightarrow> False
      | ErasureCertificate c \<Rightarrow>
          (truthy cid \<longrightarrow> cid = Some (certificate_id c)) \<and>
          (truthy sn \<longrightarrow> sn = Some (device_serial c)) \<and>
          (truthy ch \<longrightarrow> ch = Some (certificate_hash c)))"
  by (auto simp: block_matches_def Let_def split: block_data.splits)

text \<open>
  What the verification does on every stored ledger. A request with no filter is answered
  400. With at least one filter, the blocks considered are the erasure certificates that
  agree with every filter given (an absent or empty filter agrees with all). When none
  does, the answer is not found, with status \<open>NOT_FOUND\<close>. Otherwise the answer
  reports the match at the greatest position, with the two checks as the code computes
  them: the equality of its stored and its recomputed hash, and
  \<open>verify_chain_integrity\<close> up to its stored index. The ledger file is not changed.
\<close>

lemma verify_certificate_latest_match:
  "(\<not> truthy cid \<and> \<not> truthy sn \<and> \<not> truthy ch \<longrightarrow>
      (\<exists>msg. verify_certificate H f cid sn ch = (f, BadRequest msg)))
   \<and> (truthy cid \<or> truthy sn \<or> truthy ch \<longrightarrow>
        ((\<forall>b \<in> set (blocks L). \<not> block_matches cid sn ch b) \<longrightarrow>
              verify_certificate H (Stored L) cid sn ch = (Stored L, Ok NotFound)
              \<and> found NotFound = False \<and> verification_status NotFound = NOT_FOUND)
        \<and> ((\<exists>b \<in> set (blocks L). block_matches cid sn ch b) \<longrightarrow>
             (\<exists>i < length (blocks L).
                 block_matches cid sn ch (blocks L ! i)
                 \<and> (\<forall>j. i < j \<and> j < length (blocks L) \<longrightarrow> \<not> block_matches cid sn ch (blocks L ! j))
                 \<and> verify_certificate H (Stored L) cid sn ch =
                     (Stored L,
                      Ok (Found (block_hash (blocks L ! i) = calculate_block_hash H (blocks L ! i))
                            (verify_chain_integrity H L (block_index (blocks L ! i)))
                            (blocks L ! i)
                            (if block_hash (blocks L ! i) = calculate_block_hash H (blocks L ! i)
                                \<and> verify_chain_integrity H L (block_index (blocks L ! i))
                             then VALID else INVALID))))))
   \<and> (\<forall>b. block_matches cid sn ch b =
          (case data b of
             Genesis m \<Rightarrow> False
           | ErasureCertificate c \<Rightarrow>
               (truthy cid \<longrightarrow> cid = Some (certificate_id c)) \<and>
               (truthy sn \<longrightarrow> sn = Some (device_serial c)) \<and>
               (truthy ch \<longrightarrow> ch = Some (certificate_hash c))))"
proof (intro conjI impI allI)
  assume "\<not> truthy cid \<and> \<not> truthy sn \<and> \<not> truthy ch"
  then show "\<exists>msg. verify_certificate H f cid sn ch = (f, BadRequest msg)"
    by (simp add: verify_certificate_def)
next
  assume t: "truthy cid \<or> truthy sn \<or> truthy ch"
    and none: "\<forall>b \<in> set (blocks L). \<not> block_matches cid sn ch b"
  have "filter (block_matches cid sn ch) (blocks L) = []"
    using none by (simp add: filter_empty_conv)
  then have "verify_local_certificate H (Stored L) cid sn ch = (Stored L, NotFound)"
    by (simp add: verify_local_certificate_def load_ledger_def)
  then show "verify_certificate H (Stored L) cid sn ch = (Stored L, Ok NotFound)"
    using t by (simp add: verify_certificate_def)
next
  show "found NotFound = False" by simp
next
  show "verification_status NotFound = NOT_FOUND" by simp
next
  assume t: "truthy cid \<or> truthy sn \<or> truthy ch"
    and some: "\<exists>b \<in> set (blocks L). block_matches cid sn ch b"
  let ?P = "block_matches cid sn ch"
  have ne: "filter ?P (blocks L) \<noteq> []" using some by (simp add: filter_empty_conv)
  obtain i where i: "i < length (blocks L)" "blocks L ! i = last (filter ?P (blocks L))"
      "?P (blocks L ! i)" "\<forall>j. i < j \<and> j < length (blocks L) \<longrightarrow> \<not> ?P (blocks L ! j)"
    using last_filter_position[OF ne] by blast
  have "verify_local_certificate H (Stored L) cid sn ch =
     (Stored L,
      Found (block_hash (blocks L ! i) = calculate_block_hash H (blocks L ! i))
            (verify_chain_integrity H L (block_index (blocks L ! i)))
            (blocks L ! i)
            (if block_hash (blocks L ! i) = calculate_block_hash H (blocks L ! i)
                \<and> verify_chain_integrity H L (block_index (blocks L ! i))
             then VALID else INVALID))"
    using ne i(2) by (simp add: verify_local_certificate_def load_ledger_def Let_def)
  then have "verify_certificate H (Stored L) cid sn ch =
     (Stored L,
      Ok (Found (block_hash (blocks L ! i) = calculate_block_hash H (blocks L ! i))
            (verify_chain_integrity H L (block_index (blocks L ! i)))
            (blocks L ! i)
            (if block_hash (blocks L ! i) = calculate_block_hash H (blocks L ! i)
                \<and> verify_chain_integrity H L (block_index (blocks L ! i))
             then VALID else INVALID)))"
    using t by (simp add: verify_certificate_def)
  then show "\<exists>i < length (blocks L).
                 block_matches cid sn ch (blocks L ! i)
                 \<and> (\<forall>j. i < j \<and> j < length (blocks L) \<longrightarrow> \<not> block_matches cid sn ch (blocks L ! j))
                 \<and> verify_certificate H (Stored L) cid sn ch =
                     (Stored L,
                      Ok (Found (block_hash (blocks L ! i) = calculate_block_hash H (blocks L ! i))
                            (verify_chain_integrity H L (block_index (blocks L ! i)))
                            (blocks L ! i)
                            (if block_hash (blocks L ! i) = calculate_block_hash H (blocks L ! i)
                                \<and> verify_chain_integrity H L (block_index (blocks L ! i))
                             then VALID else INVALID)))"
    using i(1) i(3) i(4) by blast
next
  fix b
  show "block_matches cid sn ch b =
          (case data b of
             Genesis m \<Rightarrow> False
           | ErasureCertificate c \<Rightarrow>
               (truthy cid \<longrightarrow> cid = Some (certificate_id c)) \<and>
               (truthy sn \<longrightarrow> sn = Some (device_serial c)) \<and>
               (truthy ch \<longrightarrow> ch = Some (certificate_hash c)))"
    by (rule block_matches_iff)
qed

lemma spec_verify_chain_first_block:
  assumes "0 \<le> k" and "block_hash g \<noteq> H (spec_canonical_block g)"
  shows "\<not> spec_verify_chain H (g # rest) k"
proof
  assume a: "spec_verify_chain H (g # rest) k"
  have "(0::nat) \<in> {x \<in> {0..<length (g # rest)}. int x \<le> k}"
    using assms(1) by simp
  then have mem: "0 \<in> set (filter (\<lambda>i. int i \<le> k) [0..<length (g # rest)])"
    by (simp only: set_filter set_upt)
  have "block_hash ((g # rest) ! 0) = H (spec_canonical_block ((g # rest) ! 0))"
    using a[unfolded spec_verify_chain_def list_all_iff, rule_format, OF mem] by blast
  then show False using assms(2) by simp
qed

text \<open>
  Claim C4, on a ledger whose genesis block was altered. Take any ledger that
  initialisation and recordings build, and any filters of which at least one is given and
  that some block matches. Replace the message and the previous hash of the genesis block
  and leave its stored hash, so that the stored hash is no longer the digest of the
  block's canonical form. The verification still reports a match, a recorded block at a
  non-negative index, with both checks true and the status \<open>VALID\<close>, although the
  chain does not verify up to that index: block 0 lies in that range and its stored hash
  differs from its recomputed hash.
\<close>

theorem C4_valid_on_altered_genesis:
  assumes built: "record_all H (initialize_local_ledger H tc tg NoFile) reqs = Inr (Stored L)"
    and given: "truthy cid \<or> truthy sn \<or> truthy ch"
    and some: "\<exists>b \<in> set (blocks L). block_matches cid sn ch b"
    and changed: "H (spec_canonical_block
                      ((create_genesis_block H tg)\<lparr>data := Genesis m', previous_hash := p'\<rparr>))
                  \<noteq> block_hash (create_genesis_block H tg)"
  shows "\<exists>b. verify_certificate H
               (Stored (L\<lparr>blocks := (create_genesis_block H tg)
                                        \<lparr>data := Genesis m', previous_hash := p'\<rparr>
                                      # tl (blocks L)\<rparr>)) cid sn ch
             = (Stored (L\<lparr>blocks := (create_genesis_block H tg)
                                        \<lparr>data := Genesis m', previous_hash := p'\<rparr>
                                      # tl (blocks L)\<rparr>),
                Ok (Found True True b VALID))
           \<and> b \<in> set (tl (blocks L))
           \<and> block_matches cid sn ch b
           \<and> 0 \<le> block_index b
           \<and> \<not> spec_verify_chain H
                 ((create_genesis_block H tg)\<lparr>data := Genesis m', previous_hash := p'\<rparr>
                    # tl (blocks L))
                 (block_index b)"
proof -
  let ?P = "block_matches cid sn ch"
  let ?g = "create_genesis_block H tg"
  let ?g' = "?g\<lparr>data := Genesis m', previous_hash := p'\<rparr>"
  obtain L0 where L0: "record_all H (initialize_local_ledger H tc tg NoFile) reqs = Inr (Stored L0)"
      "chain_invariant H (blocks L0)" "length (blocks L0) = Suc (length reqs)"
      "hd (blocks L0) = ?g"
    using reachable_invariant[of H tc tg reqs] by blast
  have LL: "L0 = L" using L0(1) built by simp
  have inv: "chain_invariant H (blocks L)" using L0(2) LL by simp
  obtain g rest where gr: "blocks L = g # rest" using L0(3) LL by (cases "blocks L") auto
  have g: "g = ?g" using L0(4) LL gr by simp
  have rest: "tl (blocks L) = rest" using gr by simp
  let ?L' = "L\<lparr>blocks := ?g' # rest\<rparr>"
  have ng: "\<not> ?P ?g" by (simp add: block_matches_def create_genesis_block_def Let_def)
  have ng': "\<not> ?P ?g'" by (simp add: block_matches_def)
  have f: "filter ?P (blocks L) = filter ?P rest" using gr g ng by simp
  have f': "filter ?P (blocks ?L') = filter ?P rest" using ng' by simp
  have ne: "filter ?P rest \<noteq> []"
  proof -
    obtain b0 where b0: "b0 \<in> set (blocks L)" "?P b0" using some by blast
    have "b0 \<noteq> g" using b0(2) ng g by auto
    then have "b0 \<in> set rest" using b0(1) gr by simp
    then show ?thesis using b0(2) by (auto simp: filter_empty_conv)
  qed
  let ?b = "last (filter ?P rest)"
  have bin: "?b \<in> set (filter ?P rest)" using ne by (rule last_in_set)
  have brest: "?b \<in> set rest" using bin by simp
  have bP: "?P ?b" using bin by simp
  obtain j where j: "j < length rest" "rest ! j = ?b"
    using brest unfolding in_set_conv_nth by blast
  have at: "blocks L ! Suc j = ?b" using gr j(2) by simp
  have lt: "Suc j < length (blocks L)" using gr j(1) by simp
  have cl: "chain_linked H (blocks L)" and ix: "indices_from 0 (blocks L)"
    using inv by (simp_all add: chain_invariant_def)
  have "block_index (blocks L ! Suc j) = 0 + int (Suc j)"
    using ix[unfolded indices_from_index, rule_format, OF lt] .
  then have idx: "block_index ?b = int (Suc j)" unfolding at by simp
  have "previous_hash (blocks L ! Suc j) = block_hash (blocks L ! (Suc j - 1)) \<and>
        block_hash (blocks L ! Suc j) = calculate_block_hash H (blocks L ! Suc j)"
    using cl[unfolded chain_linked_index, rule_format, of "Suc j"] lt by simp
  then have own: "block_hash ?b = calculate_block_hash H ?b" unfolding at by simp
  have same: "L\<lparr>blocks := g # rest\<rparr> = L" using gr by simp
  have "verify_chain_integrity H ?L' (block_index ?b) =
        verify_chain_integrity H (L\<lparr>blocks := g # rest\<rparr>) (block_index ?b)"
    unfolding g by (rule verify_chain_first_block) simp
  also have "\<dots> = True"
    unfolding same using inv verify_chain_of_invariant[of H L "block_index ?b"] by simp
  finally have chain: "verify_chain_integrity H ?L' (block_index ?b) = True" .
  have ld: "load_ledger (Stored ?L') = Inr ?L'" by (simp add: load_ledger_def)
  have "verify_local_certificate H (Stored ?L') cid sn ch =
          (Stored ?L', Found True True ?b VALID)"
    unfolding verify_local_certificate_def ld Let_def sum.case f' chain
    using ne own by simp
  then have v: "verify_certificate H (Stored ?L') cid sn ch =
          (Stored ?L', Ok (Found True True ?b VALID))"
    using given by (simp add: verify_certificate_def)
  have nonneg: "0 \<le> block_index ?b" using idx by simp
  have "block_hash ?g' \<noteq> H (spec_canonical_block ?g')" using changed by simp
  then have spec: "\<not> spec_verify_chain H (?g' # rest) (block_index ?b)"
    using nonneg by (rule spec_verify_chain_first_block[rotated])
  show ?thesis
    unfolding rest using v brest bP nonneg spec by blast
qed

theorem C4_valid_on_altered_genesis_witness:
  "\<exists>L b. record_all (\<lambda>s. s) (initialize_local_ledger (\<lambda>s. s) ''c'' ''g'' NoFile)
            [\<lparr>req_txn_time = ''t1'', req_block_time = ''t2'',
              req_cert = \<lparr>cd_certificate_id = Some ''ID'', cd_certificate_hash = Some ''HASH''\<rparr>,
              req_report = \<lparr>rpt_wipe_id = Some ''w'', rpt_method = None, rpt_status = None,
                             rpt_start_time = None, rpt_end_time = None, rpt_simulated = None,
                             rpt_other = []\<rparr>,
              req_device = \<lparr>serial = Some ''S'', model = None, dev_type = None,
                             dev_other = []\<rparr>\<rparr>]
          = Inr (Stored L)
     \<and> truthy (Some ''ID'')
     \<and> verify_certificate (\<lambda>s. s)
          (Stored (L\<lparr>blocks := (create_genesis_block (\<lambda>s. s) ''g'')
                                   \<lparr>data := Genesis ''FRASH Ledger Genesis Block'',
                                    previous_hash := zero_hash\<rparr> # tl (blocks L)\<rparr>))
          (Some ''ID'') None None
        = (Stored (L\<lparr>blocks := (create_genesis_block (\<lambda>s. s) ''g'')
                                   \<lparr>data := Genesis ''FRASH Ledger Genesis Block'',
                                    previous_hash := zero_hash\<rparr> # tl (blocks L)\<rparr>),
           Ok (Found True True b VALID))
     \<and> block_index b = 1
     \<and> \<not> spec_verify_chain (\<lambda>s. s)
           ((create_genesis_block (\<lambda>s. s) ''g'')
               \<lparr>data := Genesis ''FRASH Ledger Genesis Block'', previous_hash := zero_hash\<rparr>
             # tl (blocks L))
           (block_index b)"
proof -
  let ?H = "\<lambda>s :: string. s"
  let ?r = "\<lparr>req_txn_time = ''t1'', req_block_time = ''t2'',
              req_cert = \<lparr>cd_certificate_id = Some ''ID'', cd_certificate_hash = Some ''HASH''\<rparr>,
              req_report = \<lparr>rpt_wipe_id = Some ''w'', rpt_method = None, rpt_status = None,
                             rpt_start_time = None, rpt_end_time = None, rpt_simulated = None,
                             rpt_other = []\<rparr>,
              req_device = \<lparr>serial = Some ''S'', model = None, dev_type = None,
                             dev_other = []\<rparr>\<rparr>"
  let ?g = "create_genesis_block ?H ''g''"
  let ?L0 = "\<lparr>ledger_version = ''1.0'', created_at = ''c'',
              ledger_type = ''local_immutable'',
              description = ''Immutable ledger for disk erasure certificates'',
              blocks = [?g]\<rparr>"
  have init: "initialize_local_ledger ?H ''c'' ''g'' NoFile = Stored ?L0"
    by (simp add: initialize_local_ledger_def)
  obtain b e where step:
    "record_local_erasure ?H (req_txn_time ?r) (req_block_time ?r) (Stored ?L0)
        (req_cert ?r) (req_report ?r) (req_device ?r) =
      Inr (Stored (?L0\<lparr>blocks := blocks ?L0 @ [b]\<rparr>), e)"
    and bi: "block_index b = int (length (blocks ?L0))"
    and bd: "case data b of
               Genesis m \<Rightarrow> False
             | ErasureCertificate c \<Rightarrow>
                 certificate_id c = get_default (cd_certificate_id (req_cert ?r)) ''N/A'' \<and>
                 certificate_hash c = get_default (cd_certificate_hash (req_cert ?r)) ''N/A'' \<and>
                 device_serial c = get_default (serial (req_device ?r)) ''N/A''"
    using record_local_erasure_stored[of ?H "req_txn_time ?r" "req_block_time ?r" ?L0
            "req_cert ?r" "req_report ?r" "req_device ?r"] by blast
  let ?L = "?L0\<lparr>blocks := blocks ?L0 @ [b]\<rparr>"
  have built: "record_all ?H (initialize_local_ledger ?H ''c'' ''g'' NoFile) [?r] = Inr (Stored ?L)"
    unfolding init using step by simp
  have given: "truthy (Some ''ID'') \<or> truthy None \<or> truthy None"
    by (simp add: truthy_def)
  have m: "block_matches (Some ''ID'') None None b"
    using bd unfolding block_matches_iff
    by (cases "data b") (simp_all add: truthy_def get_default_def)
  have some: "\<exists>x \<in> set (blocks ?L). block_matches (Some ''ID'') None None x"
    using m by simp
  have changed: "?H (spec_canonical_block
                      ((create_genesis_block ?H ''g'')
                         \<lparr>data := Genesis ''FRASH Ledger Genesis Block'',
                          previous_hash := zero_hash\<rparr>))
                  \<noteq> block_hash (create_genesis_block ?H ''g'')"
    by code_simp
  obtain x where x:
      "verify_certificate ?H
         (Stored (?L\<lparr>blocks := ?g\<lparr>data := Genesis ''FRASH Ledger Genesis Block'',
                                    previous_hash := zero_hash\<rparr> # tl (blocks ?L)\<rparr>))
         (Some ''ID'') None None
       = (Stored (?L\<lparr>blocks := ?g\<lparr>data := Genesis ''FRASH Ledger Genesis Block'',
                                    previous_hash := zero_hash\<rparr> # tl (blocks ?L)\<rparr>),
          Ok (Found True True x VALID))"
      "x \<in> set (tl (blocks ?L))"
      "\<not> spec_verify_chain ?H
           (?g\<lparr>data := Genesis ''FRASH Ledger Genesis Block'', previous_hash := zero_hash\<rparr>
             # tl (blocks ?L))
           (block_index x)"
    using C4_valid_on_altered_genesis[OF built given some changed] by blast
  have xb: "x = b" using x(2) by simp
  have x1: "block_index x = 1" unfolding xb using bi by simp
  have t: "truthy (Some ''ID'')" by (simp add: truthy_def)
  show ?thesis
    apply (rule exI[of _ ?L], rule exI[of _ x])
    apply (intro conjI)
        apply (rule built)
       apply (rule t)
      apply (rule x(1))
     apply (rule x1)
    apply (rule x(3))
    done
qed

lemma search_blocks_concat:
  "search_blocks sn bs =
     concat (map (\<lambda>b. case data b of
                         Genesis m \<Rightarrow> []
                       | ErasureCertificate c \<Rightarrow>
                           if device_serial c = sn
                           then [\<lparr>sr_block_index = block_index b, sr_timestamp = timestamp b,
                                  sr_certificate_id = certificate_id c,
                                  sr_certificate_hash = certificate_hash c,
                                  sr_wipe_method = wipe_method c,
                                  sr_wipe_status = wipe_status c\<rparr>]
                           else []) bs)"
  by (induction bs) (auto split: block_data.splits)

lemma search_blocks_length:
  "length (search_blocks sn bs) =
     length (filter (\<lambda>b. case data b of Genesis m \<Rightarrow> False
                          | ErasureCertificate c \<Rightarrow> device_serial c = sn) bs)"
  by (induction bs) (auto split: block_data.splits)

text \<open>
  Claim C10. The search by serial number always returns a list and leaves the ledger
  file as it is. When the file is absent or cannot be parsed the list is empty. When the
  file holds a ledger, the list has, in the order of the blocks, one record for each
  erasure certificate whose device serial is the one searched, with that block's index,
  timestamp, certificate id and hash, method and status, and nothing else.
\<close>

theorem C10_search_by_serial:
  "fst (search_by_serial ty f sn) = f
   \<and> search_by_serial ''local'' NoFile sn = (NoFile, [])
   \<and> search_by_serial ''local'' Unreadable sn = (Unreadable, [])
   \<and> search_by_serial ''local'' (Stored L) sn =
       (Stored L,
        concat (map (\<lambda>b. case data b of
                         Genesis m \<Rightarrow> []
                       | ErasureCertificate c \<Rightarrow>
                           if device_serial c = sn
                           then [\<lparr>sr_block_index = block_index b, sr_timestamp = timestamp b,
                                  sr_certificate_id = certificate_id c,
                                  sr_certificate_hash = certificate_hash c,
                                  sr_wipe_method = wipe_method c,
                                  sr_wipe_status = wipe_status c\<rparr>]
                           else []) (blocks L)))
   \<and> length (snd (search_by_serial ''local'' (Stored L) sn)) =
       length (filter (\<lambda>b. case data b of Genesis m \<Rightarrow> False
                          | ErasureCertificate c \<Rightarrow> device_serial c = sn) (blocks L))"
proof (intro conjI)
  show "fst (search_by_serial ty f sn) = f"
    by (cases f) (simp_all add: search_by_serial_def load_ledger_def)
  show "search_by_serial ''local'' NoFile sn = (NoFile, [])"
    by (simp add: search_by_serial_def load_ledger_def)
  show "search_by_serial ''local'' Unreadable sn = (Unreadable, [])"
    by (simp add: search_by_serial_def load_ledger_def)
  have s: "search_by_serial ''local'' (Stored L) sn = (Stored L, search_blocks sn (blocks L))"
    by (simp add: search_by_serial_def load_ledger_def)
  show "search_by_serial ''local'' (Stored L) sn =
       (Stored L,
        concat (map (\<lambda>b. case data b of
                         Genesis m \<Rightarrow> []
                       | ErasureCertificate c \<Rightarrow>
                           if device_serial c = sn
                           then [\<lparr>sr_block_index = block_index b, sr_timestamp = timestamp b,
                                  sr_certificate_id = certificate_id c,
                                  sr_certificate_hash = certificate_hash c,
                                  sr_wipe_method = wipe_method c,
                                  sr_wipe_status = wipe_status c\<rparr>]
                           else []) (blocks L)))"
    unfolding s using search_blocks_concat[of sn "blocks L"] by simp
  show "length (snd (search_by_serial ''local'' (Stored L) sn)) =
       length (filter (\<lambda>b. case data b of Genesis m \<Rightarrow> False
                          | ErasureCertificate c \<Rightarrow> device_serial c = sn) (blocks L))"
    unfolding s using search_blocks_length[of sn "blocks L"] by simp
qed

section \<open>Properties of the wipe service\<close>

lemma update_wipe_status_lookup:
  assumes "map_of reg wid = Some job"
  shows "map_of (update_wipe_status reg now wid st p l e) wid =
     Some (job\<lparr>status := st,
               progress := (case p of None \<Rightarrow> progress job | Some x \<Rightarrow> x),
               logs := (if truthy l then logs job @ [\<lparr>log_timestamp = now, message = the l\<rparr>]
                        else logs job),
               error := (if truthy e then e else error job),
               end_time := (if st = Completed then Some now else end_time job)\<rparr>)"
  using assms
  by (simp add: update_wipe_status_def Let_def AList.update_conv' split: option.splits)

lemma update_wipe_status_other:
  "k \<noteq> wid \<Longrightarrow> map_of (update_wipe_status reg now wid st p l e) k = map_of reg k"
  by (simp add: update_wipe_status_def Let_def AList.update_conv' split: option.splits)

lemma update_wipe_status_keys:
  "map fst (update_wipe_status reg now wid st p l e) = map fst reg"
proof (cases "map_of reg wid")
  case None
  then show ?thesis by (simp add: update_wipe_status_def)
next
  case (Some job)
  then have "wid \<in> set (map fst reg)" by (metis map_of_eq_None_iff option.distinct(1) set_map)
  then show ?thesis using Some
    by (simp add: update_wipe_status_def Let_def AList.update_keys)
qed

lemma stream_loop_job:
  assumes "map_of reg wid = Some job"
  shows "\<exists>job'. map_of (last (reg # fst (stream_loop reg clock wid k lines))) wid = Some job' \<and>
           device job' = device job \<and> error job' = error job \<and> end_time job' = end_time job"
  using assms
proof (induction lines arbitrary: reg k job)
  case Nil
  then show ?case by simp
next
  case (Cons raw rest)
  show ?case
  proof (cases "strip raw = []")
    case True
    then show ?thesis using Cons.IH[OF Cons.prems, of k] by simp
  next
    case False
    let ?reg' = "update_wipe_status reg (clock k) wid Running
                      (parse_nwipe_progress (strip raw)) (Some (strip raw)) None"
    obtain j1 where j1: "map_of ?reg' wid = Some j1" "device j1 = device job"
        "error j1 = error job" "end_time j1 = end_time job"
      using update_wipe_status_lookup[OF Cons.prems, of "clock k" Running
              "parse_nwipe_progress (strip raw)" "Some (strip raw)" None]
      by (simp add: truthy_def)
    obtain job' where j': "map_of (last (?reg' # fst (stream_loop ?reg' clock wid (Suc k) rest))) wid
          = Some job'" "device job' = device j1" "error job' = error j1"
        "end_time job' = end_time j1"
      using Cons.IH[OF j1(1), of "Suc k"] by blast
    have "last (reg # fst (stream_loop reg clock wid k (raw # rest))) =
          last (?reg' # fst (stream_loop ?reg' clock wid (Suc k) rest))"
      using False by (simp add: Let_def split: prod.splits)
    then show ?thesis using j' j1 by simp
  qed
qed

lemma simulated_loop_job:
  assumes "map_of reg wid = Some job"
  shows "\<exists>job'. map_of (last (reg # fst (simulated_loop reg clock wid n i sts))) wid = Some job' \<and>
           device job' = device job \<and> error job' = error job \<and> end_time job' = end_time job"
  using assms
proof (induction sts arbitrary: reg i job)
  case Nil
  then show ?case by simp
next
  case (Cons log rest)
  show ?case
  proof (cases "stage_progress n i log")
    case (Inl e)
    then show ?thesis using Cons.prems by simp
  next
    case (Inr p)
    let ?reg' = "update_wipe_status reg (clock i) wid Running (Some p) (Some log) None"
    obtain j1 where j1: "map_of ?reg' wid = Some j1" "device j1 = device job"
        "error j1 = error job" "end_time j1 = end_time job"
      using update_wipe_status_lookup[OF Cons.prems, of "clock i" Running "Some p" "Some log" None]
      by (simp add: truthy_def)
    obtain job' where j': "map_of (last (?reg' # fst (simulated_loop ?reg' clock wid n (Suc i) rest))) wid
          = Some job'" "device job' = device j1" "error job' = error j1"
        "end_time job' = end_time j1"
      using Cons.IH[OF j1(1), of "Suc i"] by blast
    have "last (reg # fst (simulated_loop reg clock wid n i (log # rest))) =
          last (?reg' # fst (simulated_loop ?reg' clock wid n (Suc i) rest))"
      using Inr by (simp add: Let_def split: prod.splits)
    then show ?thesis using j' j1 by simp
  qed
qed

lemma start_wipe_started:
  assumes "start_wipe reg0 ep t d m v sim = (reg, Started wid)"
  shows "map_of reg wid =
           Some \<lparr>device = d, status = Starting, progress = 0, job_method = m,
                 start_time = t, logs = [], job_simulated = sim,
                 error = None, end_time = None\<rparr>
         \<and> wid = ''wipe_'' @ str_int ep @ ''_'' @ replace_slash d
         \<and> d \<notin> set (map (\<lambda>w. device w) (map snd reg0))
         \<and> reg = AList.update wid
              \<lparr>device = d, status = Starting, progress = 0, job_method = m,
               start_time = t, logs = [], job_simulated = sim,
               error = None, end_time = None\<rparr> reg0"
  using assms
  by (auto simp: start_wipe_def Let_def AList.update_conv' split: if_splits)

lemma real_wipe_last:
  assumes "map_of reg wid = Some job"
  shows "\<exists>mid k jm. map_of mid wid = Some jm \<and> device jm = device job \<and>
     error jm = error job \<and> end_time jm = end_time job \<and>
     last (reg # run_real_wipe reg clock proc wid d m v) =
       (case proc of
          PopenRaises e \<Rightarrow>
            update_wipe_status mid (clock k) wid Failed None None (Some (str_error e))
        | StreamRaises ls e \<Rightarrow>
            update_wipe_status mid (clock k) wid Failed None None (Some (str_error e))
        | Exits ls rc \<Rightarrow>
            if rc = 0
            then update_wipe_status mid (clock k) wid Completed (Some 100) None None
            else update_wipe_status mid (clock k) wid Failed None None
                   (Some ''nwipe exited with error''))"
proof -
  define r0 where "r0 = update_wipe_status reg (clock 0) wid Running None
       (Some (''Executing: '' @ join '' ''
          [''sudo'', ''nwipe'', ''--autonuke'', ''--method'', method_map m,
           ''--verify'', (if v then ''last'' else ''off''), ''--nogui'', d])) None"
  have run: "run_real_wipe reg clock proc wid d m v =
     (case proc of
           PopenRaises e \<Rightarrow>
             [r0, update_wipe_status r0 (clock 1) wid Failed None None (Some (str_error e))]
         | StreamRaises lines e \<Rightarrow>
             (case stream_loop r0 clock wid 1 lines of
                (trace, k) \<Rightarrow>
                  r0 # trace @
                  [update_wipe_status (last (r0 # trace)) (clock k) wid Failed None None
                     (Some (str_error e))])
         | Exits lines returncode \<Rightarrow>
             (case stream_loop r0 clock wid 1 lines of
                (trace, k) \<Rightarrow>
                  r0 # trace @
                  [if returncode = 0
                   then update_wipe_status (last (r0 # trace)) (clock k) wid Completed
                          (Some 100) None None
                   else update_wipe_status (last (r0 # trace)) (clock k) wid Failed
                          None None (Some ''nwipe exited with error'')]))"
    unfolding run_real_wipe_def Let_def r0_def ..
  have "\<exists>j0. map_of r0 wid = Some j0 \<and> device j0 = device job \<and>
      error j0 = error job \<and> end_time j0 = end_time job"
    unfolding r0_def
    by (subst update_wipe_status_lookup[OF assms]) (simp add: truthy_def)
  then obtain j0 where j0: "map_of r0 wid = Some j0" "device j0 = device job"
      "error j0 = error job" "end_time j0 = end_time job"
    by blast
  show ?thesis
  proof (cases proc)
    case (PopenRaises e)
    have "last (reg # run_real_wipe reg clock proc wid d m v) =
          update_wipe_status r0 (clock 1) wid Failed None None (Some (str_error e))"
      by (subst run) (simp add: PopenRaises)
    then show ?thesis using j0 PopenRaises
      by (intro exI[of _ r0] exI[of _ 1] exI[of _ j0]) simp
  next
    case (StreamRaises ls e)
    obtain tr k where sl: "stream_loop r0 clock wid 1 ls = (tr, k)"
      by (cases "stream_loop r0 clock wid 1 ls")
    obtain jm where jm: "map_of (last (r0 # tr)) wid = Some jm" "device jm = device j0"
        "error jm = error j0" "end_time jm = end_time j0"
      using stream_loop_job[OF j0(1), of clock 1 ls] unfolding sl fst_conv by blast
    have "last (reg # run_real_wipe reg clock proc wid d m v) =
          update_wipe_status (last (r0 # tr)) (clock k) wid Failed None None (Some (str_error e))"
      using sl by (subst run) (simp add: StreamRaises)
    then show ?thesis using jm j0 StreamRaises
      by (intro exI[of _ "last (r0 # tr)"] exI[of _ k] exI[of _ jm]) simp
  next
    case (Exits ls rc)
    obtain tr k where sl: "stream_loop r0 clock wid 1 ls = (tr, k)"
      by (cases "stream_loop r0 clock wid 1 ls")
    obtain jm where jm: "map_of (last (r0 # tr)) wid = Some jm" "device jm = device j0"
        "error jm = error j0" "end_time jm = end_time j0"
      using stream_loop_job[OF j0(1), of clock 1 ls] unfolding sl fst_conv by blast
    have "last (reg # run_real_wipe reg clock proc wid d m v) =
          (if rc = 0
           then update_wipe_status (last (r0 # tr)) (clock k) wid Completed (Some 100) None None
           else update_wipe_status (last (r0 # tr)) (clock k) wid Failed None None
                   (Some ''nwipe exited with error''))"
      using sl by (subst run) (simp add: Exits)
    then show ?thesis using jm j0 Exits
      by (intro exI[of _ "last (r0 # tr)"] exI[of _ k] exI[of _ jm]) simp
  qed
qed

lemma failed_update:
  assumes "map_of mid wid = Some jm" and "msg \<noteq> []"
  shows "\<exists>job. map_of (update_wipe_status mid now wid Failed None None (Some msg)) wid = Some job \<and>
           status job = Failed \<and> error job = Some msg \<and> end_time job = end_time jm \<and>
           device job = device jm"
  by (subst update_wipe_status_lookup[OF assms(1)]) (simp add: truthy_def assms(2))

lemma completed_update:
  assumes "map_of mid wid = Some jm"
  shows "\<exists>job. map_of (update_wipe_status mid now wid Completed (Some 100) None None) wid = Some job \<and>
           status job = Completed \<and> progress job = 100 \<and> end_time job = Some now \<and>
           error job = error jm \<and> device job = device jm"
  by (subst update_wipe_status_lookup[OF assms(1)]) (simp add: truthy_def)

text \<open>
  Claim C8. Take a job that \<open>start_wipe\<close> created for a real wipe and let its worker
  run to the end. When the process exits with a non-zero code, when starting the process
  raises, and when reading its output raises, the job ends with the status \<open>failed\<close>
  and with the error message recorded, but its end time is not set: the key is as absent
  as when the job was created. When the process exits with code 0 the job ends with the
  status \<open>completed\<close> and its end time is set. (An exception whose text is empty is
  not recorded either, hence the condition on the message.)
\<close>

theorem C8_failed_job_has_no_end_time:
  assumes started: "start_wipe reg0 ep t d m v False = (reg, Started wid)"
  shows "(rc \<noteq> 0 \<longrightarrow>
            (\<exists>job. map_of (final_registry reg
                              (run_wipe reg clock (Exits ls rc) wid d m v False)) wid = Some job
               \<and> status job = Failed \<and> error job = Some ''nwipe exited with error''
               \<and> end_time job = None))
       \<and> (str_error e \<noteq> [] \<longrightarrow>
            (\<exists>job. map_of (final_registry reg
                              (run_wipe reg clock (PopenRaises e) wid d m v False)) wid = Some job
               \<and> status job = Failed \<and> error job = Some (str_error e)
               \<and> end_time job = None))
       \<and> (str_error e \<noteq> [] \<longrightarrow>
            (\<exists>job. map_of (final_registry reg
                              (run_wipe reg clock (StreamRaises ls e) wid d m v False)) wid = Some job
               \<and> status job = Failed \<and> error job = Some (str_error e)
               \<and> end_time job = None))
       \<and> (\<exists>job now. map_of (final_registry reg
                              (run_wipe reg clock (Exits ls 0) wid d m v False)) wid = Some job
               \<and> status job = Completed \<and> error job = None
               \<and> end_time job = Some now)"
proof -
  let ?new = "\<lparr>device = d, status = Starting, progress = 0, job_method = m,
                 start_time = t, logs = [], job_simulated = False,
                 error = None, end_time = None\<rparr>"
  have new: "map_of reg wid = Some ?new"
    using start_wipe_started[OF started] by blast
  have fin: "\<And>proc. final_registry reg (run_wipe reg clock proc wid d m v False) =
               last (reg # run_real_wipe reg clock proc wid d m v)"
    by (simp add: final_registry_def run_wipe_def)
  have a: "\<exists>job. map_of (final_registry reg
                              (run_wipe reg clock (Exits ls rc) wid d m v False)) wid = Some job
               \<and> status job = Failed \<and> error job = Some ''nwipe exited with error''
               \<and> end_time job = None" if rc: "rc \<noteq> 0"
  proof -
    obtain mid k jm where jm: "map_of mid wid = Some jm" "end_time jm = end_time ?new"
      and l: "last (reg # run_real_wipe reg clock (Exits ls rc) wid d m v) =
              update_wipe_status mid (clock k) wid Failed None None
                (Some ''nwipe exited with error'')"
      using real_wipe_last[OF new, of clock "Exits ls rc" d m v] rc by auto
    show ?thesis
      unfolding fin l using failed_update[OF jm(1), of "''nwipe exited with error''" "clock k"] jm(2)
      by auto
  qed
  have b: "\<exists>job. map_of (final_registry reg
                              (run_wipe reg clock (PopenRaises e) wid d m v False)) wid = Some job
               \<and> status job = Failed \<and> error job = Some (str_error e)
               \<and> end_time job = None" if ne: "str_error e \<noteq> []"
  proof -
    obtain mid k jm where jm: "map_of mid wid = Some jm" "end_time jm = end_time ?new"
      and l: "last (reg # run_real_wipe reg clock (PopenRaises e) wid d m v) =
              update_wipe_status mid (clock k) wid Failed None None (Some (str_error e))"
      using real_wipe_last[OF new, of clock "PopenRaises e" d m v] by auto
    show ?thesis
      unfolding fin l using failed_update[OF jm(1) ne, of "clock k"] jm(2) by auto
  qed
  have c: "\<exists>job. map_of (final_registry reg
                              (run_wipe reg clock (StreamRaises ls e) wid d m v False)) wid = Some job
               \<and> status job = Failed \<and> error job = Some (str_error e)
               \<and> end_time job = None" if ne: "str_error e \<noteq> []"
  proof -
    obtain mid k jm where jm: "map_of mid wid = Some jm" "end_time jm = end_time ?new"
      and l: "last (reg # run_real_wipe reg clock (StreamRaises ls e) wid d m v) =
              update_wipe_status mid (clock k) wid Failed None None (Some (str_error e))"
      using real_wipe_last[OF new, of clock "StreamRaises ls e" d m v] by auto
    show ?thesis
      unfolding fin l using failed_update[OF jm(1) ne, of "clock k"] jm(2) by auto
  qed
  have d: "\<exists>job now. map_of (final_registry reg
                              (run_wipe reg clock (Exits ls 0) wid d m v False)) wid = Some job
               \<and> status job = Completed \<and> error job = None
               \<and> end_time job = Some now"
  proof -
    obtain mid k jm where jm: "map_of mid wid = Some jm" "error jm = error ?new"
      and l: "last (reg # run_real_wipe reg clock (Exits ls 0) wid d m v) =
              update_wipe_status mid (clock k) wid Completed (Some 100) None None"
      using real_wipe_last[OF new, of clock "Exits ls 0" d m v] by auto
    show ?thesis
      unfolding fin l using completed_update[OF jm(1), of "clock k"] jm(2) by auto
  qed
  show ?thesis using a b c d by blast
qed

theorem C8_failed_job_has_no_end_time_witness:
  "start_wipe [] 1700000000 ''2023-11-14T22:13:20'' ''/dev/sda'' ''zero'' False False
     = ([(''wipe_1700000000__dev_sda'',
          \<lparr>device = ''/dev/sda'', status = Starting, progress = 0, job_method = ''zero'',
           start_time = ''2023-11-14T22:13:20'', logs = [], job_simulated = False,
           error = None, end_time = None\<rparr>)],
        Started ''wipe_1700000000__dev_sda'')
   \<and> (1::int) \<noteq> 0 \<and> str_error FileNotFoundError \<noteq> []
   \<and> (\<exists>job. map_of (final_registry
                  [(''wipe_1700000000__dev_sda'',
                    \<lparr>device = ''/dev/sda'', status = Starting, progress = 0, job_method = ''zero'',
                     start_time = ''2023-11-14T22:13:20'', logs = [], job_simulated = False,
                     error = None, end_time = None\<rparr>)]
                  (run_wipe
                     [(''wipe_1700000000__dev_sda'',
                       \<lparr>device = ''/dev/sda'', status = Starting, progress = 0,
                        job_method = ''zero'', start_time = ''2023-11-14T22:13:20'', logs = [],
                        job_simulated = False, error = None, end_time = None\<rparr>)]
                     (\<lambda>k. ''2023-11-14T22:13:21'') (Exits [''10%'', ''fatal''] 1)
                     ''wipe_1700000000__dev_sda'' ''/dev/sda'' ''zero'' False False))
                ''wipe_1700000000__dev_sda'' = Some job
          \<and> status job = Failed \<and> error job = Some ''nwipe exited with error''
          \<and> end_time job = None)
   \<and> (\<exists>job. map_of (final_registry
                  [(''wipe_1700000000__dev_sda'',
                    \<lparr>device = ''/dev/sda'', status = Starting, progress = 0, job_method = ''zero'',
                     start_time = ''2023-11-14T22:13:20'', logs = [], job_simulated = False,
                     error = None, end_time = None\<rparr>)]
                  (run_wipe
                     [(''wipe_1700000000__dev_sda'',
                       \<lparr>device = ''/dev/sda'', status = Starting, progress = 0,
                        job_method = ''zero'', start_time = ''2023-11-14T22:13:20'', logs = [],
                        job_simulated = False, error = None, end_time = None\<rparr>)]
                     (\<lambda>k. ''2023-11-14T22:13:21'') (PopenRaises FileNotFoundError)
                     ''wipe_1700000000__dev_sda'' ''/dev/sda'' ''zero'' False False))
                ''wipe_1700000000__dev_sda'' = Some job
          \<and> status job = Failed \<and> error job = Some ''[Errno 2] No such file or directory''
          \<and> end_time job = None)"
proof -
  let ?reg = "[(''wipe_1700000000__dev_sda'',
          \<lparr>device = ''/dev/sda'', status = Starting, progress = 0, job_method = ''zero'',
           start_time = ''2023-11-14T22:13:20'', logs = [], job_simulated = False,
           error = None, end_time = None\<rparr>)]"
  have s: "start_wipe [] 1700000000 ''2023-11-14T22:13:20'' ''/dev/sda'' ''zero'' False False
     = (?reg, Started ''wipe_1700000000__dev_sda'')"
    by (simp add: start_wipe_def Let_def str_int_def str_nat.simps digit_char_def
          replace_slash_def)
  have r: "(1::int) \<noteq> 0" by simp
  have e: "str_error FileNotFoundError \<noteq> []" by simp
  have m: "str_error FileNotFoundError = ''[Errno 2] No such file or directory''" by simp
  note t = C8_failed_job_has_no_end_time[OF s, of 1 "\<lambda>k. ''2023-11-14T22:13:21''"
             "[''10%'', ''fatal'']" FileNotFoundError]
  show ?thesis
    apply (intro conjI)
        apply (rule s)
       apply (rule r)
      apply (rule e)
     apply (rule t[THEN conjunct1, rule_format, OF r])
    apply (rule t[THEN conjunct2, THEN conjunct1, rule_format, OF e, unfolded m])
    done
qed

lemma update_wipe_status_explicit:
  "update_wipe_status (AList.update wid j r) now wid st p l e =
     AList.update wid
       (j\<lparr>status := st,
          progress := (case p of None \<Rightarrow> progress j | Some x \<Rightarrow> x),
          logs := (if truthy l then logs j @ [\<lparr>log_timestamp = now, message = the l\<rparr>]
                   else logs j),
          error := (if truthy e then e else error j),
          end_time := (if st = Completed then Some now else end_time j)\<rparr>) r"
  by (simp add: update_wipe_status_def Let_def AList.update_conv' split: option.splits)

lemma update_wipe_status_update:
  "\<exists>j'. update_wipe_status (AList.update wid j r) now wid st p l e = AList.update wid j' r \<and>
        device j' = device j \<and> status j' = st"
  unfolding update_wipe_status_explicit by (intro exI conjI, rule refl) simp_all

lemma stream_loop_update:
  "\<exists>j'. last (AList.update wid j r # fst (stream_loop (AList.update wid j r) clock wid k lines))
          = AList.update wid j' r \<and> device j' = device j"
proof (induction lines arbitrary: j k)
  case Nil
  show ?case by (rule exI[of _ j]) simp
next
  case (Cons raw rest)
  show ?case
  proof (cases "strip raw = []")
    case True
    then show ?thesis using Cons.IH[of j k] by simp
  next
    case False
    obtain j1 where j1: "update_wipe_status (AList.update wid j r) (clock k) wid Running
                      (parse_nwipe_progress (strip raw)) (Some (strip raw)) None
                    = AList.update wid j1 r" "device j1 = device j"
      using update_wipe_status_update[of wid j r "clock k" Running
              "parse_nwipe_progress (strip raw)" "Some (strip raw)" None] by blast
    obtain j' where j': "last (AList.update wid j1 r #
                           fst (stream_loop (AList.update wid j1 r) clock wid (Suc k) rest))
          = AList.update wid j' r" "device j' = device j1"
      using Cons.IH[of j1 "Suc k"] by blast
    have "last (AList.update wid j r #
                  fst (stream_loop (AList.update wid j r) clock wid k (raw # rest))) =
          last (AList.update wid j1 r #
                  fst (stream_loop (AList.update wid j1 r) clock wid (Suc k) rest))"
      using False j1(1) by (simp add: Let_def split: prod.splits)
    then have e: "last (AList.update wid j r #
                  fst (stream_loop (AList.update wid j r) clock wid k (raw # rest))) = AList.update wid j' r"
      using j'(1) by (simp only:)
    have dv: "device j' = device j" using j'(2) j1(2) by simp
    show ?thesis by (rule exI[of _ j'], rule conjI, rule e, rule dv)
  qed
qed

lemma simulated_loop_update:
  "\<exists>j'. last (AList.update wid j r #
               fst (simulated_loop (AList.update wid j r) clock wid n i sts))
          = AList.update wid j' r \<and> device j' = device j"
proof (induction sts arbitrary: j i)
  case Nil
  show ?case by (rule exI[of _ j]) simp
next
  case (Cons log rest)
  show ?case
  proof (cases "stage_progress n i log")
    case (Inl e)
    then show ?thesis by (intro exI[of _ j]) simp
  next
    case (Inr p)
    obtain j1 where j1: "update_wipe_status (AList.update wid j r) (clock i) wid Running
                      (Some p) (Some log) None
                    = AList.update wid j1 r" "device j1 = device j"
      using update_wipe_status_update[of wid j r "clock i" Running "Some p" "Some log" None]
      by blast
    obtain j' where j': "last (AList.update wid j1 r #
                           fst (simulated_loop (AList.update wid j1 r) clock wid n (Suc i) rest))
          = AList.update wid j' r" "device j' = device j1"
      using Cons.IH[of j1 "Suc i"] by blast
    have "last (AList.update wid j r #
                  fst (simulated_loop (AList.update wid j r) clock wid n i (log # rest))) =
          last (AList.update wid j1 r #
                  fst (simulated_loop (AList.update wid j1 r) clock wid n (Suc i) rest))"
      using Inr j1(1) by (simp add: Let_def split: prod.splits)
    then have e: "last (AList.update wid j r #
                  fst (simulated_loop (AList.update wid j r) clock wid n i (log # rest))) = AList.update wid j' r"
      using j'(1) by (simp only:)
    have dv: "device j' = device j" using j'(2) j1(2) by simp
    show ?thesis by (rule exI[of _ j'], rule conjI, rule e, rule dv)
  qed
qed

lemma set_update_subset: "set (AList.update k v al) \<subseteq> insert (k, v) (set al)"
  by (induction al) auto

lemma update_member: "(k, v) \<in> set (AList.update k v al)"
  by (induction al) auto

lemma run_wipe_final:
  "\<exists>j'. final_registry (AList.update wid j r)
            (run_wipe (AList.update wid j r) clock proc wid d m v sim) = AList.update wid j' r \<and>
        device j' = device j \<and> (status j' = Completed \<or> status j' = Failed)"
proof (cases sim)
  case True
  let ?reg = "AList.update wid j r"
  obtain tr raised where sl:
    "simulated_loop ?reg clock wid (length (stages d m)) 0 (stages d m) = (tr, raised)"
    by (cases "simulated_loop ?reg clock wid (length (stages d m)) 0 (stages d m)")
  obtain j1 where j1: "last (?reg # tr) = AList.update wid j1 r" "device j1 = device j"
    using simulated_loop_update[of wid j r clock "length (stages d m)" 0 "stages d m"]
    unfolding sl fst_conv by blast
  show ?thesis
  proof (cases raised)
    case None
    obtain j2 where j2: "update_wipe_status (AList.update wid j1 r) (clock (length (stages d m)))
        wid Completed (Some 100) None None = AList.update wid j2 r"
        "device j2 = device j1" "status j2 = Completed"
      using update_wipe_status_update by blast
    have "final_registry ?reg (run_wipe ?reg clock proc wid d m v sim) =
          update_wipe_status (last (?reg # tr)) (clock (length (stages d m)))
            wid Completed (Some 100) None None"
      using True sl None
      by (simp add: final_registry_def run_wipe_def run_simulated_wipe_def Let_def)
    then have "final_registry ?reg (run_wipe ?reg clock proc wid d m v sim) = AList.update wid j2 r"
      unfolding j1(1) j2(1) .
    then show ?thesis using j2 j1(2) by (intro exI[of _ j2]) simp
  next
    case (Some e)
    obtain j2 where j2: "update_wipe_status (AList.update wid j1 r) (clock (length tr))
        wid Failed None None (Some (str_error e)) = AList.update wid j2 r"
        "device j2 = device j1" "status j2 = Failed"
      using update_wipe_status_update by blast
    have "final_registry ?reg (run_wipe ?reg clock proc wid d m v sim) =
          update_wipe_status (last (?reg # tr)) (clock (length tr))
            wid Failed None None (Some (str_error e))"
      using True sl Some
      by (simp add: final_registry_def run_wipe_def run_simulated_wipe_def Let_def)
    then have "final_registry ?reg (run_wipe ?reg clock proc wid d m v sim) = AList.update wid j2 r"
      unfolding j1(1) j2(1) .
    then show ?thesis using j2 j1(2) by (intro exI[of _ j2]) simp
  qed
next
  case False
  let ?reg = "AList.update wid j r"
  define msg where "msg = ''Executing: '' @ join '' ''
          [''sudo'', ''nwipe'', ''--autonuke'', ''--method'', method_map m,
           ''--verify'', (if v then ''last'' else ''off''), ''--nogui'', d]"
  define r0 where "r0 = update_wipe_status ?reg (clock 0) wid Running None (Some msg) None"
  have run: "run_real_wipe ?reg clock proc wid d m v =
     (case proc of
           PopenRaises e \<Rightarrow>
             [r0, update_wipe_status r0 (clock 1) wid Failed None None (Some (str_error e))]
         | StreamRaises lines e \<Rightarrow>
             (case stream_loop r0 clock wid 1 lines of
                (trace, k) \<Rightarrow>
                  r0 # trace @
                  [update_wipe_status (last (r0 # trace)) (clock k) wid Failed None None
                     (Some (str_error e))])
         | Exits lines returncode \<Rightarrow>
             (case stream_loop r0 clock wid 1 lines of
                (trace, k) \<Rightarrow>
                  r0 # trace @
                  [if returncode = 0
                   then update_wipe_status (last (r0 # trace)) (clock k) wid Completed
                          (Some 100) None None
                   else update_wipe_status (last (r0 # trace)) (clock k) wid Failed
                          None None (Some ''nwipe exited with error'')]))"
    unfolding run_real_wipe_def Let_def r0_def msg_def ..
  obtain j0 where j0: "r0 = AList.update wid j0 r" "device j0 = device j"
    unfolding r0_def using update_wipe_status_update by blast
  have fin: "final_registry ?reg (run_wipe ?reg clock proc wid d m v sim) =
             last (?reg # run_real_wipe ?reg clock proc wid d m v)"
    using False by (simp add: final_registry_def run_wipe_def)
  show ?thesis
  proof (cases proc)
    case (PopenRaises e)
    obtain j2 where j2: "update_wipe_status (AList.update wid j0 r) (clock 1)
        wid Failed None None (Some (str_error e)) = AList.update wid j2 r"
        "device j2 = device j0" "status j2 = Failed"
      using update_wipe_status_update by blast
    have "last (?reg # run_real_wipe ?reg clock proc wid d m v) =
          update_wipe_status r0 (clock 1) wid Failed None None (Some (str_error e))"
      by (subst run) (simp add: PopenRaises)
    then have "final_registry ?reg (run_wipe ?reg clock proc wid d m v sim) = AList.update wid j2 r"
      unfolding fin j0(1) j2(1) .
    then show ?thesis using j2 j0(2) by (intro exI[of _ j2]) simp
  next
    case (StreamRaises ls e)
    obtain tr k where sl: "stream_loop r0 clock wid 1 ls = (tr, k)"
      by (cases "stream_loop r0 clock wid 1 ls")
    obtain j1 where j1: "last (r0 # tr) = AList.update wid j1 r" "device j1 = device j0"
      using stream_loop_update[of wid j0 r clock 1 ls] unfolding j0(1)[symmetric] sl fst_conv
      by blast
    obtain j2 where j2: "update_wipe_status (AList.update wid j1 r) (clock k)
        wid Failed None None (Some (str_error e)) = AList.update wid j2 r"
        "device j2 = device j1" "status j2 = Failed"
      using update_wipe_status_update by blast
    have "last (?reg # run_real_wipe ?reg clock proc wid d m v) =
          update_wipe_status (last (r0 # tr)) (clock k) wid Failed None None (Some (str_error e))"
      using sl by (subst run) (simp add: StreamRaises)
    then have "final_registry ?reg (run_wipe ?reg clock proc wid d m v sim) = AList.update wid j2 r"
      unfolding fin j1(1) j2(1) .
    then show ?thesis using j2 j1(2) j0(2) by (intro exI[of _ j2]) simp
  next
    case (Exits ls rc)
    obtain tr k where sl: "stream_loop r0 clock wid 1 ls = (tr, k)"
      by (cases "stream_loop r0 clock wid 1 ls")
    obtain j1 where j1: "last (r0 # tr) = AList.update wid j1 r" "device j1 = device j0"
      using stream_loop_update[of wid j0 r clock 1 ls] unfolding j0(1)[symmetric] sl fst_conv
      by blast
    obtain j2 where j2: "update_wipe_status (AList.update wid j1 r) (clock k)
        wid Failed None None (Some ''nwipe exited with error'') = AList.update wid j2 r"
        "device j2 = device j1" "status j2 = Failed"
      using update_wipe_status_update by blast
    obtain j3 where j3: "update_wipe_status (AList.update wid j1 r) (clock k)
        wid Completed (Some 100) None None = AList.update wid j3 r"
        "device j3 = device j1" "status j3 = Completed"
      using update_wipe_status_update by blast
    have l: "last (?reg # run_real_wipe ?reg clock proc wid d m v) =
          (if rc = 0
           then update_wipe_status (last (r0 # tr)) (clock k) wid Completed (Some 100) None None
           else update_wipe_status (last (r0 # tr)) (clock k) wid Failed None None
                   (Some ''nwipe exited with error''))"
      using sl by (subst run) (simp add: Exits)
    show ?thesis
    proof (cases "rc = 0")
      case True
      have "final_registry ?reg (run_wipe ?reg clock proc wid d m v sim) = AList.update wid j3 r"
        unfolding fin l j1(1) using True j3(1) by simp
      then show ?thesis using j3 j1(2) j0(2) by (intro exI[of _ j3]) simp
    next
      case False
      have "final_registry ?reg (run_wipe ?reg clock proc wid d m v sim) = AList.update wid j2 r"
        unfolding fin l j1(1) using False j2(1) by simp
      then show ?thesis using j2 j1(2) j0(2) by (intro exI[of _ j2]) simp
    qed
  qed
qed

lemma start_wipe_rejects_iff:
  "start_wipe reg ep t d m v sim =
     (if \<exists>j \<in> snd ` set reg. device j = d
      then (reg, StartError ''Device is already being wiped'')
      else (AList.update (''wipe_'' @ str_int ep @ ''_'' @ replace_slash d)
              \<lparr>device = d, status = Starting, progress = 0, job_method = m,
               start_time = t, logs = [], job_simulated = sim,
               error = None, end_time = None\<rparr> reg,
            Started (''wipe_'' @ str_int ep @ ''_'' @ replace_slash d)))"
  by (auto simp: start_wipe_def Let_def)

text \<open>
  Claim C5, after the job has ended. Take a start that succeeds and let the worker of the
  job run to its end, simulated or real, whatever the process does. The job is then
  completed or failed, no job of the registry for that device is starting or running,
  and yet a new start for the same device is rejected with the message that the device
  is already being wiped, and the registry is left as it is. \<open>start_wipe\<close> looks for
  the device among all jobs of the registry and does not read their status, and no job
  is ever removed from the registry.
\<close>

theorem C5_start_rejected_after_terminal:
  assumes started: "start_wipe reg0 ep t d m v sim = (reg, Started wid)"
  shows "\<exists>job. map_of (final_registry reg (run_wipe reg clock proc wid d m v sim)) wid = Some job
           \<and> device job = d
           \<and> (status job = Completed \<or> status job = Failed)
           \<and> (\<forall>j \<in> snd ` set (final_registry reg (run_wipe reg clock proc wid d m v sim)).
                 device j = d \<longrightarrow> status j \<noteq> Starting \<and> status j \<noteq> Running)
           \<and> start_wipe (final_registry reg (run_wipe reg clock proc wid d m v sim))
                ep' t' d m' v' sim'
              = (final_registry reg (run_wipe reg clock proc wid d m v sim),
                 StartError ''Device is already being wiped'')"
proof -
  let ?new = "\<lparr>device = d, status = Starting, progress = 0, job_method = m,
               start_time = t, logs = [], job_simulated = sim,
               error = None, end_time = None\<rparr>"
  have reg: "reg = AList.update wid ?new reg0"
    and free: "d \<notin> set (map (\<lambda>w. device w) (map snd reg0))"
    using start_wipe_started[OF started] by blast+
  obtain jF where jF:
    "final_registry reg (run_wipe reg clock proc wid d m v sim) = AList.update wid jF reg0"
    "device jF = device ?new" "status jF = Completed \<or> status jF = Failed"
    unfolding reg using run_wipe_final[of wid ?new reg0 clock proc d m v sim] by blast
  have dev: "device jF = d" using jF(2) by simp
  have look: "map_of (AList.update wid jF reg0) wid = Some jF"
    by (simp add: AList.update_conv')
  have others: "\<forall>j \<in> snd ` set (AList.update wid jF reg0).
                  device j = d \<longrightarrow> status j \<noteq> Starting \<and> status j \<noteq> Running"
  proof
    fix j assume "j \<in> snd ` set (AList.update wid jF reg0)"
    then obtain w where "(w, j) \<in> set (AList.update wid jF reg0)" by auto
    then have "(w, j) = (wid, jF) \<or> (w, j) \<in> set reg0"
      using set_update_subset[of wid jF reg0] by auto
    then show "device j = d \<longrightarrow> status j \<noteq> Starting \<and> status j \<noteq> Running"
    proof
      assume "(w, j) = (wid, jF)"
      then show ?thesis using jF(3) by auto
    next
      assume "(w, j) \<in> set reg0"
      then have "device j \<in> set (map (\<lambda>w. device w) (map snd reg0))" by force
      then show ?thesis using free by auto
    qed
  qed
  have "jF \<in> snd ` set (AList.update wid jF reg0)"
    using update_member[of wid jF reg0] by force
  then have "\<exists>j \<in> snd ` set (AList.update wid jF reg0). device j = d"
    using dev by blast
  then have again: "start_wipe (AList.update wid jF reg0) ep' t' d m' v' sim'
              = (AList.update wid jF reg0, StartError ''Device is already being wiped'')"
    by (subst start_wipe_rejects_iff) simp
  show ?thesis
    unfolding jF(1) using look dev jF(3) others again by blast
qed

theorem C5_start_rejected_after_terminal_witness:
  "start_wipe [] 1700000000 ''2023-11-14T22:13:20'' ''/dev/sda'' ''dodshort'' False True
     = ([(''wipe_1700000000__dev_sda'',
          \<lparr>device = ''/dev/sda'', status = Starting, progress = 0, job_method = ''dodshort'',
           start_time = ''2023-11-14T22:13:20'', logs = [], job_simulated = True,
           error = None, end_time = None\<rparr>)],
        Started ''wipe_1700000000__dev_sda'')
   \<and> (\<exists>job. map_of (final_registry
                  [(''wipe_1700000000__dev_sda'',
                    \<lparr>device = ''/dev/sda'', status = Starting, progress = 0,
                     job_method = ''dodshort'', start_time = ''2023-11-14T22:13:20'',
                     logs = [], job_simulated = True, error = None, end_time = None\<rparr>)]
                  (run_wipe
                     [(''wipe_1700000000__dev_sda'',
                       \<lparr>device = ''/dev/sda'', status = Starting, progress = 0,
                        job_method = ''dodshort'', start_time = ''2023-11-14T22:13:20'',
                        logs = [], job_simulated = True, error = None, end_time = None\<rparr>)]
                     (\<lambda>k. ''2023-11-14T22:13:21'') (Exits [] 0)
                     ''wipe_1700000000__dev_sda'' ''/dev/sda'' ''dodshort'' False True))
                ''wipe_1700000000__dev_sda'' = Some job
          \<and> device job = ''/dev/sda''
          \<and> (status job = Completed \<or> status job = Failed)
          \<and> snd (start_wipe
                 (final_registry
                  [(''wipe_1700000000__dev_sda'',
                    \<lparr>device = ''/dev/sda'', status = Starting, progress = 0,
                     job_method = ''dodshort'', start_time = ''2023-11-14T22:13:20'',
                     logs = [], job_simulated = True, error = None, end_time = None\<rparr>)]
                  (run_wipe
                     [(''wipe_1700000000__dev_sda'',
                       \<lparr>device = ''/dev/sda'', status = Starting, progress = 0,
                        job_method = ''dodshort'', start_time = ''2023-11-14T22:13:20'',
                        logs = [], job_simulated = True, error = None, end_time = None\<rparr>)]
                     (\<lambda>k. ''2023-11-14T22:13:21'') (Exits [] 0)
                     ''wipe_1700000000__dev_sda'' ''/dev/sda'' ''dodshort'' False True))
                 1700003600 ''2023-11-14T23:13:20'' ''/dev/sda'' ''dodshort'' False True)
              = StartError ''Device is already being wiped'')"
proof -
  let ?reg = "[(''wipe_1700000000__dev_sda'',
          \<lparr>device = ''/dev/sda'', status = Starting, progress = 0, job_method = ''dodshort'',
           start_time = ''2023-11-14T22:13:20'', logs = [], job_simulated = True,
           error = None, end_time = None\<rparr>)]"
  have s: "start_wipe [] 1700000000 ''2023-11-14T22:13:20'' ''/dev/sda'' ''dodshort'' False True
     = (?reg, Started ''wipe_1700000000__dev_sda'')"
    by (simp add: start_wipe_def Let_def str_int_def str_nat.simps digit_char_def
          replace_slash_def)
  obtain job where job:
    "map_of (final_registry ?reg
               (run_wipe ?reg (\<lambda>k. ''2023-11-14T22:13:21'') (Exits [] 0)
                  ''wipe_1700000000__dev_sda'' ''/dev/sda'' ''dodshort'' False True))
        ''wipe_1700000000__dev_sda'' = Some job"
    "device job = ''/dev/sda''"
    "status job = Completed \<or> status job = Failed"
    "start_wipe (final_registry ?reg
               (run_wipe ?reg (\<lambda>k. ''2023-11-14T22:13:21'') (Exits [] 0)
                  ''wipe_1700000000__dev_sda'' ''/dev/sda'' ''dodshort'' False True))
        1700003600 ''2023-11-14T23:13:20'' ''/dev/sda'' ''dodshort'' False True
     = (final_registry ?reg
               (run_wipe ?reg (\<lambda>k. ''2023-11-14T22:13:21'') (Exits [] 0)
                  ''wipe_1700000000__dev_sda'' ''/dev/sda'' ''dodshort'' False True),
        StartError ''Device is already being wiped'')"
    using C5_start_rejected_after_terminal[OF s, of "\<lambda>k. ''2023-11-14T22:13:21''" "Exits [] 0"
            1700003600 "''2023-11-14T23:13:20''" "''dodshort''" False True]
    by blast
  have r: "snd (start_wipe (final_registry ?reg
               (run_wipe ?reg (\<lambda>k. ''2023-11-14T22:13:21'') (Exits [] 0)
                  ''wipe_1700000000__dev_sda'' ''/dev/sda'' ''dodshort'' False True))
        1700003600 ''2023-11-14T23:13:20'' ''/dev/sda'' ''dodshort'' False True)
     = StartError ''Device is already being wiped''"
    unfolding job(4) by simp
  show ?thesis
    apply (rule conjI)
     apply (rule s)
    apply (rule exI[of _ job])
    apply (intro conjI)
       apply (rule job(1))
      apply (rule job(2))
     apply (rule job(3))
    apply (rule r)
    done
qed

end
